theory Spec2Isabelle
  imports Complex_Main "HOL-Library.Log_Nat"
begin

section \<open>Python values and dictionaries\<close>

text \<open>
  The scraper of \<^verbatim>\<open>src/scrapers.py\<close> collects its findings in a Python \<^verbatim>\<open>dict\<close>
  from field names to values. A dict keeps its keys in insertion order and an assignment
  to an existing key replaces the value in place; it is modelled as an association list
  with exactly that update.

  A Python \<^verbatim>\<open>str\<close> is modelled as a \<^typ>\<open>string\<close>: one \<^typ>\<open>char\<close> per code
  point, for texts whose code points are below 256 (the degree sign of the temperature
  patterns is \<open>CHR 0xB0\<close>). Python integers are unbounded, as \<^typ>\<open>int\<close> is.
  A Python float is a binary64 number and is modelled by the rational number it stands
  for; every operation on floats rounds its exact result to binary64, as the section on
  floating-point arithmetic lays down.

  An exception is a value of the type \<open>error\<close>, and a function whose body can raise
  returns a value of \<open>error + 'a\<close>: \<open>Inl\<close> with the exception raised, or \<open>Inr\<close> with the
  value returned. The exceptions that the scrapers can raise on a page that was parsed are
  \<^verbatim>\<open>OverflowError\<close>, from the conversion of a large integer to a float, and
  \<^verbatim>\<open>ValueError\<close>, from \<^verbatim>\<open>int\<close> on a long string of digits.
\<close>

datatype error = OverflowError | ValueError

datatype pydate = Date int int int

datatype pyval = PInt int | PFloat rat | PStr string | PDate pydate | PNone

type_synonym pydict = "(string \<times> pyval) list"

text \<open>Truth value of a Python object, as \<^verbatim>\<open>if x:\<close> and \<^verbatim>\<open>not x\<close> test it.\<close>

fun truthy :: "pyval \<Rightarrow> bool" where
  "truthy (PInt n) = (n \<noteq> 0)"
| "truthy (PFloat x) = (x \<noteq> 0)"
| "truthy (PStr s) = (s \<noteq> [])"
| "truthy (PDate d) = True"
| "truthy PNone = False"

text \<open>\<^verbatim>\<open>d[k] = v\<close>\<close>

fun dict_set :: "string \<Rightarrow> pyval \<Rightarrow> pydict \<Rightarrow> pydict" where
  "dict_set k v [] = [(k, v)]"
| "dict_set k v ((k', v') # d) = (if k' = k then (k, v) # d else (k', v') # dict_set k v d)"

text \<open>\<^verbatim>\<open>d.get(k)\<close>, with \<open>None\<close> for a missing key.\<close>

definition dict_get :: "pydict \<Rightarrow> string \<Rightarrow> pyval option" where
  "dict_get d k = map_of d k"

text \<open>The truth value of \<^verbatim>\<open>d.get(k)\<close>: false for a missing key and for a falsy value.\<close>

definition get_truthy :: "pydict \<Rightarrow> string \<Rightarrow> bool" where
  "get_truthy d k = (case dict_get d k of None \<Rightarrow> False | Some v \<Rightarrow> truthy v)"

text \<open>\<^verbatim>\<open>d.update(other)\<close>: every item of \<open>other\<close> is assigned, in order.\<close>

fun dict_update :: "pydict \<Rightarrow> pydict \<Rightarrow> pydict" where
  "dict_update d [] = d"
| "dict_update d ((k, v) # other) = dict_update (dict_set k v d) other"

section \<open>Strings\<close>

definition is_digit :: "char \<Rightarrow> bool" where
  "is_digit c = (let n = (of_char c :: nat) in 48 \<le> n \<and> n \<le> 57)"

text \<open>\<^verbatim>\<open>str.isspace\<close> and the class \<^verbatim>\<open>\s\<close> of a \<^verbatim>\<open>str\<close> pattern, below code point 256.\<close>

definition is_space :: "char \<Rightarrow> bool" where
  "is_space c = (let n = (of_char c :: nat) in
     (9 \<le> n \<and> n \<le> 13) \<or> (28 \<le> n \<and> n \<le> 32) \<or> n = 133 \<or> n = 160)"

text \<open>\<^verbatim>\<open>str.lower\<close> on one character, below code point 256.\<close>

definition lower_char :: "char \<Rightarrow> char" where
  "lower_char c = (let n = (of_char c :: nat) in
     if (65 \<le> n \<and> n \<le> 90) \<or> (192 \<le> n \<and> n \<le> 222 \<and> n \<noteq> 215)
     then char_of (n + 32) else c)"

definition lower :: "string \<Rightarrow> string" where
  "lower s = map lower_char s"

text \<open>\<^verbatim>\<open>str.strip()\<close>\<close>

definition strip :: "string \<Rightarrow> string" where
  "strip s = rev (dropWhile is_space (rev (dropWhile is_space s)))"

fun starts_with :: "string \<Rightarrow> string \<Rightarrow> bool" where
  "starts_with [] s = True"
| "starts_with (p # ps) [] = False"
| "starts_with (p # ps) (c # cs) = (p = c \<and> starts_with ps cs)"

text \<open>\<^verbatim>\<open>sub in s\<close>\<close>

fun contains :: "string \<Rightarrow> string \<Rightarrow> bool" where
  "contains sub [] = (sub = [])"
| "contains sub (c # cs) = (starts_with sub (c # cs) \<or> contains sub cs)"

text \<open>\<^verbatim>\<open>s.replace(c, '')\<close> for a one-character \<open>c\<close>.\<close>

definition remove_char :: "char \<Rightarrow> string \<Rightarrow> string" where
  "remove_char c s = filter (\<lambda>x. x \<noteq> c) s"

text \<open>
  \<^verbatim>\<open>int(s)\<close> on a capture of \<^verbatim>\<open>\d+\<close> or \<^verbatim>\<open>-?\d+\<close>: the decimal value, negated after a
  leading minus sign. CPython raises \<^verbatim>\<open>ValueError\<close> on a string without a digit and on a
  string of more than \<^verbatim>\<open>sys.int_info.default_max_str_digits\<close> = 4300 digits, leading
  zeros counted and the sign not.
\<close>

definition digit_val :: "char \<Rightarrow> int" where
  "digit_val c = int (of_char c) - 48"

definition digits_to_int :: "string \<Rightarrow> int" where
  "digits_to_int s = foldl (\<lambda>acc c. 10 * acc + digit_val c) 0 s"

definition max_str_digits :: nat where
  "max_str_digits = 4300"

definition py_int :: "string \<Rightarrow> error + int" where
  "py_int s =
     (let negative = (s \<noteq> [] \<and> hd s = CHR ''-'');
          digits = (if negative then tl s else s)
      in if digits = [] \<or> max_str_digits < length digits then Inl ValueError
         else Inr (if negative then - digits_to_int digits else digits_to_int digits))"

section \<open>Regular expressions\<close>

text \<open>
  The patterns of the module use literals, the classes \<^verbatim>\<open>\d\<close>, \<^verbatim>\<open>\s\<close>, \<^verbatim>\<open>.\<close> and
  bracketed sets, concatenation, alternation, the greedy quantifiers \<^verbatim>\<open>*\<close>, \<^verbatim>\<open>+\<close>,
  \<^verbatim>\<open>?\<close> and the lazy \<^verbatim>\<open>*?\<close> on single characters, capturing groups and \<^verbatim>\<open>$\<close>.
  Python's \<^verbatim>\<open>re\<close> is a backtracking matcher: it tries the alternatives of a pattern
  in a fixed priority order and reports the first that succeeds. \<open>ends\<close> lists, in that
  priority order, every way the pattern matches a prefix of the input, as the captured
  groups and the input left over; the head of the list is the match Python reports.
\<close>

datatype atom = Ch char | Dig | Spc | Dot | OneOf "atom list"

datatype re =
    Eps
  | Atom atom
  | Str string
  | Seq re re
  | Alt re re
  | Opt re
  | Star atom
  | Plus atom
  | Lazy atom
  | Group re
  | Eol

text \<open>Whether one character belongs to a class; \<open>ic\<close> is the flag \<^verbatim>\<open>re.IGNORECASE\<close>.\<close>

fun atom_ok :: "bool \<Rightarrow> atom \<Rightarrow> char \<Rightarrow> bool" where
  "atom_ok ic (Ch p) c = (if ic then lower_char c = lower_char p else c = p)"
| "atom_ok ic Dig c = is_digit c"
| "atom_ok ic Spc c = is_space c"
| "atom_ok ic Dot c = (c \<noteq> CHR 0x0A)"
| "atom_ok ic (OneOf as) c = (\<exists>a \<in> set as. atom_ok ic a c)"

fun lit_ok :: "bool \<Rightarrow> string \<Rightarrow> string \<Rightarrow> bool" where
  "lit_ok ic [] s = True"
| "lit_ok ic (p # ps) [] = False"
| "lit_ok ic (p # ps) (c # cs) = (atom_ok ic (Ch p) c \<and> lit_ok ic ps cs)"

fun ends :: "bool \<Rightarrow> re \<Rightarrow> string \<Rightarrow> (string list \<times> string) list" where
  "ends ic Eps s = [([], s)]"
| "ends ic (Atom a) [] = []"
| "ends ic (Atom a) (c # cs) = (if atom_ok ic a c then [([], cs)] else [])"
| "ends ic (Str p) s = (if lit_ok ic p s then [([], drop (length p) s)] else [])"
| "ends ic (Seq r1 r2) s =
     concat (map (\<lambda>(g1, s1). map (\<lambda>(g2, s2). (g1 @ g2, s2)) (ends ic r2 s1)) (ends ic r1 s))"
| "ends ic (Alt r1 r2) s = ends ic r1 s @ ends ic r2 s"
| "ends ic (Opt r) s = ends ic r s @ [([], s)]"
| "ends ic (Star a) [] = [([], [])]"
| "ends ic (Star a) (c # cs) =
     (if atom_ok ic a c then ends ic (Star a) cs @ [([], c # cs)] else [([], c # cs)])"
| "ends ic (Plus a) [] = []"
| "ends ic (Plus a) (c # cs) = (if atom_ok ic a c then ends ic (Star a) cs else [])"
| "ends ic (Lazy a) [] = [([], [])]"
| "ends ic (Lazy a) (c # cs) =
     ([], c # cs) # (if atom_ok ic a c then ends ic (Lazy a) cs else [])"
| "ends ic (Group r) s =
     map (\<lambda>(g, s'). (take (length s - length s') s # g, s')) (ends ic r s)"
| "ends ic Eol s = (if s = [] \<or> s = [CHR 0x0A] then [([], s)] else [])"

text \<open>A match object: \<^verbatim>\<open>group(0)\<close>, the captured groups, and the text after the match.\<close>

record rmatch =
  group0 :: string
  groups :: "string list"
  after :: string

text \<open>\<^verbatim>\<open>m.group(i)\<close> for \<open>i \<ge> 1\<close>; every pattern below has the groups that are read.\<close>

definition match_group :: "rmatch \<Rightarrow> nat \<Rightarrow> string" where
  "match_group m i = (if i - 1 < length (groups m) then groups m ! (i - 1) else [])"

text \<open>\<^verbatim>\<open>re.search\<close>: the first match at the leftmost position that has one.\<close>

fun re_search :: "bool \<Rightarrow> re \<Rightarrow> string \<Rightarrow> rmatch option" where
  "re_search ic r [] =
     (case ends ic r [] of
        [] \<Rightarrow> None
      | (g, s') # _ \<Rightarrow> Some \<lparr>group0 = [], groups = g, after = s'\<rparr>)"
| "re_search ic r (c # cs) =
     (case ends ic r (c # cs) of
        [] \<Rightarrow> re_search ic r cs
      | (g, s') # _ \<Rightarrow>
          Some \<lparr>group0 = take (length (c # cs) - length s') (c # cs), groups = g, after = s'\<rparr>)"

text \<open>
  \<^verbatim>\<open>re.finditer\<close>: the successive matches, each search starting where the previous
  match ended. Every pattern that is iterated contains \<^verbatim>\<open>(\d+)\<close>, so no match is empty;
  the length test only makes the recursion well-founded.
\<close>

function finditer :: "bool \<Rightarrow> re \<Rightarrow> string \<Rightarrow> rmatch list" where
  "finditer ic r s =
     (case re_search ic r s of
        None \<Rightarrow> []
      | Some m \<Rightarrow> m # (if length (after m) < length s then finditer ic r (after m) else []))"
  by pat_completeness auto
termination
  by (relation "measure (\<lambda>(ic, r, s). length s)") auto

definition seqs :: "re list \<Rightarrow> re" where
  "seqs rs = foldr Seq rs Eps"

definition alts :: "re list \<Rightarrow> re" where
  "alts rs = foldr Alt (butlast rs) (last rs)"

section \<open>Floating-point arithmetic\<close>

text \<open>
  A binary64 number other than zero is \<open>m * 2 ^ e\<close> with an integer \<open>m\<close> of 53 bits,
  \<open>2 ^ 52 \<le> \<bar>m\<bar> < 2 ^ 53\<close>. An operation on floats returns the binary64 number nearest
  to its exact result, a tie going to the even \<open>m\<close>, and overflows when that number reaches
  \<open>2 ^ 1024\<close>. The exponent has no lower bound here: the results of the module are zero or
  at least one tenth in magnitude, far above the subnormal range.
\<close>

text \<open>The integer nearest to \<open>y\<close>, a tie going to the even one.\<close>

definition round_he :: "rat \<Rightarrow> int" where
  "round_he y =
     (let f = \<lfloor>y\<rfloor>; d = y - of_int f in
      if d < 1 / 2 then f else if 1 / 2 < d then f + 1 else if even f then f else f + 1)"

text \<open>The exponent of \<open>x \<noteq> 0\<close>: the integer \<open>e\<close> with \<open>2 ^ e \<le> \<bar>x\<bar> < 2 ^ (e + 1)\<close>.\<close>

definition ilog2 :: "rat \<Rightarrow> int" where
  "ilog2 x = (if 1 \<le> \<bar>x\<bar> then bitlen \<lfloor>\<bar>x\<bar>\<rfloor> - 1 else - bitlen (\<lceil>1 / \<bar>x\<bar>\<rceil> - 1))"

text \<open>Rounding to binary64, the exponent unbounded.\<close>

definition binary64 :: "rat \<Rightarrow> rat" where
  "binary64 x =
     (if x = 0 then 0
      else let u = 2 powi (ilog2 x - 52) in of_int (round_he (x / u)) * u)"

text \<open>The result of an operation is out of the range of binary64.\<close>

definition overflow :: "rat \<Rightarrow> bool" where
  "overflow y = (2 ^ 1024 \<le> \<bar>y\<bar>)"

text \<open>
  \<^verbatim>\<open>float(n)\<close>, and the conversion of an \<^verbatim>\<open>int\<close> operand that meets a float: the nearest
  binary64, or \<^verbatim>\<open>OverflowError: int too large to convert to float\<close>.
\<close>

definition float_of_int :: "int \<Rightarrow> error + rat" where
  "float_of_int n =
     (let y = binary64 (of_int n) in if overflow y then Inl OverflowError else Inr y)"

text \<open>
  \<^verbatim>\<open>a / b\<close> on two \<^verbatim>\<open>int\<close>s, \<open>b \<noteq> 0\<close>: the binary64 nearest to the exact quotient, or
  \<^verbatim>\<open>OverflowError: integer division result too large for a float\<close>.
\<close>

definition true_div :: "int \<Rightarrow> int \<Rightarrow> error + rat" where
  "true_div a b =
     (let y = binary64 (of_int a / of_int b) in
      if overflow y then Inl OverflowError else Inr y)"

text \<open>\<^verbatim>\<open>int(x)\<close> on a finite float: truncation towards zero.\<close>

definition py_trunc :: "rat \<Rightarrow> int" where
  "py_trunc x = (if 0 \<le> x then \<lfloor>x\<rfloor> else \<lceil>x\<rceil>)"

text \<open>
  \<^verbatim>\<open>round(x, 1)\<close> on a float: the value of \<open>x\<close> is rounded to one decimal place, a tie
  going to the even digit, and the decimal is converted back to the nearest binary64.
\<close>

definition py_round1 :: "rat \<Rightarrow> rat" where
  "py_round1 x = binary64 (of_int (round_he (x * 10)) / 10)"

section \<open>Unit conversion\<close>

text \<open>
  Every call of the two conversions in the module passes an \<^verbatim>\<open>int\<close>.

  \<^verbatim>\<open>return int(inches * 2.54)\<close>: the argument is converted to a float and multiplied by
  the binary64 nearest to 2.54; a product that overflows is infinite, on which \<^verbatim>\<open>int\<close>
  raises \<^verbatim>\<open>OverflowError\<close>.
\<close>

definition inches_to_cm :: "int \<Rightarrow> error + int" where
  "inches_to_cm inches =
     (case float_of_int inches of
        Inl e \<Rightarrow> Inl e
      | Inr x \<Rightarrow>
          let y = binary64 (x * binary64 (254 / 100)) in
          if overflow y then Inl OverflowError else Inr (py_trunc y))"

text \<open>
  \<^verbatim>\<open>return round((fahrenheit - 32) * 5/9, 1)\<close>: the product \<^verbatim>\<open>(fahrenheit - 32) * 5\<close>
  is an exact \<^verbatim>\<open>int\<close>, the division by 9 gives a float.
\<close>

definition fahrenheit_to_celsius :: "int \<Rightarrow> error + rat" where
  "fahrenheit_to_celsius fahrenheit =
     (case true_div ((fahrenheit - 32) * 5) 9 of
        Inl e \<Rightarrow> Inl e
      | Inr x \<Rightarrow> Inr (py_round1 x))"

section \<open>Documents\<close>

text \<open>
  A fetched page reaches the scraper as a BeautifulSoup object. The model holds what the
  accessors used by the scraper return on it, each in document order:
  \<^item> \<open>data_snow\<close>: the value of the attribute \<^verbatim>\<open>data-snow\<close> of every element that has it
    (\<^verbatim>\<open>soup.find_all(attrs={'data-snow': True})\<close>);
  \<^item> \<open>meta_tags\<close>: for every \<^verbatim>\<open>meta\<close> element its attributes \<^verbatim>\<open>content\<close>, \<^verbatim>\<open>name\<close>
    and \<^verbatim>\<open>property\<close>, the empty string standing for a missing one;
  \<^item> \<open>snow_containers\<close>: \<^verbatim>\<open>get_text()\<close> of every \<^verbatim>\<open>div\<close>, \<^verbatim>\<open>span\<close>, \<^verbatim>\<open>p\<close>, \<^verbatim>\<open>td\<close>
    whose class matches \<^verbatim>\<open>snow|depth|powder|condition\<close>;
  \<^item> \<open>get_text\<close>: \<^verbatim>\<open>soup.get_text()\<close>, the flattened text of the page;
  \<^item> \<open>depth_elements\<close>: for each of the three selectors of the Vail scraper, the elements
    it finds, as \<^verbatim>\<open>get_text()\<close> and \<^verbatim>\<open>str(elem.parent)\<close> (empty without a parent).
  The JSON-LD scripts that \<^verbatim>\<open>find_json_data\<close> parses are only logged and leave no trace
  in the result.
\<close>

record document =
  data_snow :: "string list"
  meta_tags :: "(string \<times> string \<times> string) list"
  snow_containers :: "string list"
  get_text :: string
  depth_elements :: "(string \<times> string) list list"

section \<open>Patterns\<close>

definition quote :: char where
  "quote = CHR 0x22"

definition degree :: char where
  "degree = CHR 0xB0"

text \<open>\<^verbatim>\<open>(\d+)\<close>\<close>

definition number_re :: re where
  "number_re = Group (Plus Dig)"

text \<open>\<^verbatim>\<open>(?:in|inch|"|cm)\<close>\<close>

definition unit_re :: re where
  "unit_re = alts [Str ''in'', Str ''inch'', Atom (Ch quote), Str ''cm'']"

text \<open>\<^verbatim>\<open>[:\s]\<close>\<close>

definition colsp :: atom where
  "colsp = OneOf [Ch CHR '':'', Spc]"

text \<open>\<^verbatim>\<open>(\d+)\s*(?:in|inch|"|cm)\<close>, the depth token of the class heuristic.\<close>

definition depth_re :: re where
  "depth_re = seqs [number_re, Star Spc, unit_re]"

text \<open>\<^verbatim>\<open>(\d+)\s*(in|inch|cm|")\<close>, the token of the meta-tag strategy.\<close>

definition meta_re :: re where
  "meta_re = seqs [number_re, Star Spc, Group (alts [Str ''in'', Str ''inch'', Str ''cm'', Atom (Ch quote)])]"

text \<open>\<^verbatim>\<open>\d+\s*(?:in|inch|")\<close>, the inch marker looked for in the first 1000 characters.\<close>

definition inch_marker_re :: re where
  "inch_marker_re = seqs [Plus Dig, Star Spc, alts [Str ''in'', Str ''inch'', Atom (Ch quote)]]"

text \<open>\<^verbatim>\<open>(?:hr|hour|h)\<close>\<close>

definition hr_re :: re where
  "hr_re = alts [Str ''hr'', Str ''hour'', Str ''h'']"

text \<open>The table \<^verbatim>\<open>patterns\<close> of \<^verbatim>\<open>parse_snow_report_generic\<close>, in its order.\<close>

definition patterns :: "(string \<times> re list) list" where
  "patterns =
   [(''base_depth'',
      [seqs [Str ''base'', Plus colsp, number_re, Star Spc, unit_re],
       seqs [alts [Str ''lower'', Str ''bottom''], Plus colsp, number_re, Star Spc, unit_re],
       seqs [number_re, Star Spc, unit_re, Plus colsp, Str ''base''],
       seqs [Str ''base'', Plus Spc, Str ''depth'', Plus colsp, number_re],
       seqs [Str ''snow'', Plus Spc, Str ''depth'', Lazy Dot, Str ''base'', Lazy Dot, number_re]]),
    (''summit_depth'',
      [seqs [Str ''summit'', Plus colsp, number_re, Star Spc, unit_re],
       seqs [alts [Str ''top'', Str ''upper'', Str ''peak''], Plus colsp, number_re, Star Spc, unit_re],
       seqs [number_re, Star Spc, unit_re, Plus colsp, alts [Str ''summit'', Str ''top'']],
       seqs [Str ''summit'', Plus Spc, Str ''depth'', Plus colsp, number_re]]),
    (''24h_snow'',
      [seqs [alts [Str ''24'', seqs [Str ''twenty'', Opt (Atom Dot), Str ''four'']],
             Star Spc, hr_re, Plus colsp, number_re],
       seqs [Str ''overnight'', Plus colsp, number_re],
       seqs [Str ''last'', Plus Spc, Str ''24'', Plus colsp, number_re],
       seqs [Str ''new'', Plus Spc, Str ''snow'', Plus colsp, number_re],
       seqs [alts [Str ''24'', seqs [Str ''twenty'', Opt (Atom Dot), Str ''four'']],
             Star Spc, hr_re, Lazy Dot, number_re, Star Spc, unit_re],
       seqs [number_re, Star Spc, unit_re, Lazy Dot, alts [Str ''24'', Str ''overnight'', Str ''new'']]]),
    (''48h_snow'',
      [seqs [alts [Str ''48'', seqs [Str ''forty'', Opt (Atom Dot), Str ''eight'']],
             Star Spc, hr_re, Plus colsp, number_re],
       seqs [alts [Str ''2'', Str ''two''], Plus Spc, Str ''day'', Plus colsp, number_re],
       seqs [Str ''last'', Plus Spc, Str ''48'', Plus colsp, number_re]]),
    (''7d_snow'',
      [seqs [alts [Str ''7'', Str ''seven''], Plus Spc, Str ''day'', Plus colsp, number_re],
       seqs [Str ''week'', Plus colsp, number_re],
       seqs [Str ''last'', Plus Spc, Str ''week'', Plus colsp, number_re]])]"

text \<open>\<^verbatim>\<open>(\d+)\s*(?:of|/)\s*(\d+)\s+(?:lift|chair)\<close>\<close>

definition lifts_re :: re where
  "lifts_re = seqs [number_re, Star Spc, alts [Str ''of'', Str ''/''], Star Spc, number_re, Plus Spc,
                    alts [Str ''lift'', Str ''chair'']]"

text \<open>\<^verbatim>\<open>(\d+)\s*(?:of|/)\s*(\d+)\s+(?:trail|run|piste)\<close>\<close>

definition runs_re :: re where
  "runs_re = seqs [number_re, Star Spc, alts [Str ''of'', Str ''/''], Star Spc, number_re, Plus Spc,
                   alts [Str ''trail'', Str ''run'', Str ''piste'']]"

text \<open>\<^verbatim>\<open>(?:\s|$|\.)\<close>\<close>

definition temp_end :: re where
  "temp_end = alts [Atom Spc, Eol, Atom (Ch CHR ''.'')]"

text \<open>\<^verbatim>\<open>(\d+)\s*\<degree>?\s*[fF](?:\s|$|\.)\<close>\<close>

definition fahrenheit_re :: re where
  "fahrenheit_re = seqs [number_re, Star Spc, Opt (Atom (Ch degree)), Star Spc,
                         Atom (OneOf [Ch CHR ''f'', Ch CHR ''F'']), temp_end]"

text \<open>\<^verbatim>\<open>(-?\d+)\s*\<degree>?\s*[cC](?:\s|$|\.)\<close>\<close>

definition celsius_re :: re where
  "celsius_re = seqs [Group (Seq (Opt (Atom (Ch CHR ''-''))) (Plus Dig)), Star Spc,
                      Opt (Atom (Ch degree)), Star Spc,
                      Atom (OneOf [Ch CHR ''c'', Ch CHR ''C'']), temp_end]"

text \<open>\<^verbatim>\<open>temp(?:erature)?[:\s]+(\d+)\<close>\<close>

definition temp_label_re :: re where
  "temp_label_re = seqs [Str ''temp'', Opt (Str ''erature''), Plus colsp, number_re]"

definition temp_patterns :: "re list" where
  "temp_patterns = [fahrenheit_re, celsius_re, temp_label_re]"

section \<open>The extraction strategies\<close>

text \<open>A loop whose body can raise: the exception leaves the loop and is passed on.\<close>

fun for_loop :: "('s \<Rightarrow> 'a \<Rightarrow> error + 's) \<Rightarrow> 's \<Rightarrow> 'a list \<Rightarrow> error + 's" where
  "for_loop body s [] = Inr s"
| "for_loop body s (x # xs) =
     (case body s x of
        Inl e \<Rightarrow> Inl e
      | Inr s' \<Rightarrow> for_loop body s' xs)"

text \<open>
  The conversion written out at lines 110, 149 and 160:
  \<^verbatim>\<open>if 'in' in unit or '"' in unit: value = self.inches_to_cm(value)\<close>.
\<close>

definition unit_to_cm :: "string \<Rightarrow> int \<Rightarrow> error + int" where
  "unit_to_cm unit value =
     (if contains ''in'' unit \<or> contains [quote] unit then inches_to_cm value else Inr value)"

text \<open>\<^verbatim>\<open>extract_number\<close>: the first run of digits, commas removed first.\<close>

definition extract_number :: "string \<Rightarrow> error + int option" where
  "extract_number text =
     (if text = [] then Inr None
      else (case re_search False number_re (remove_char CHR '','' text) of
              None \<Rightarrow> Inr None
            | Some m \<Rightarrow>
                (case py_int (match_group m 1) of
                   Inl e \<Rightarrow> Inl e
                 | Inr n \<Rightarrow> Inr (Some n))))"

text \<open>
  \<^verbatim>\<open>find_json_data\<close>: every \<^verbatim>\<open>data-snow\<close> attribute with a non-zero number assigns
  \<^verbatim>\<open>new_snow_24h_cm\<close>, a later element replacing an earlier one. The body of the loop
  stands in a \<^verbatim>\<open>try\<close> whose bare \<^verbatim>\<open>except\<close> passes.
\<close>

definition find_json_data :: "document \<Rightarrow> pydict" where
  "find_json_data soup =
     foldl (\<lambda>data v. case extract_number v of
                        Inl e \<Rightarrow> data
                      | Inr None \<Rightarrow> data
                      | Inr (Some snow_val) \<Rightarrow>
                          if snow_val \<noteq> 0 then dict_set ''new_snow_24h_cm'' (PInt snow_val) data
                          else data)
           [] (data_snow soup)"

text \<open>The body of the loop of \<^verbatim>\<open>extract_from_meta_tags\<close> for one \<^verbatim>\<open>meta\<close> element.\<close>

definition meta_step :: "pydict \<Rightarrow> string \<times> string \<times> string \<Rightarrow> error + pydict" where
  "meta_step data meta =
     (case meta of (c, n, p) \<Rightarrow>
        let content = lower c; name = lower (n @ p) in
        if contains ''snow'' name \<or> contains ''snow'' content then
          (case re_search False meta_re content of
             None \<Rightarrow> Inr data
           | Some m \<Rightarrow>
               (case py_int (match_group m 1) of
                  Inl e \<Rightarrow> Inl e
                | Inr value \<Rightarrow>
                    (case unit_to_cm (match_group m 2) value of
                       Inl e \<Rightarrow> Inl e
                     | Inr value \<Rightarrow>
                         if contains ''base'' content
                           then Inr (dict_set ''snow_depth_base_cm'' (PInt value) data)
                         else if contains ''new'' content \<or> contains ''fresh'' content
                           then Inr (dict_set ''new_snow_24h_cm'' (PInt value) data)
                         else Inr data)))
        else Inr data)"

definition extract_from_meta_tags :: "document \<Rightarrow> error + pydict" where
  "extract_from_meta_tags soup = for_loop meta_step [] (meta_tags soup)"

text \<open>
  Strategy 3, one container and one of its two blocks: when the text names the place
  (\<open>kw\<close>) and holds a depth token, the field is assigned unless \<^verbatim>\<open>data.get(field)\<close> is
  already truthy.
\<close>

definition container_depth :: "re \<Rightarrow> string \<Rightarrow> string \<Rightarrow> pydict \<Rightarrow> error + pydict" where
  "container_depth kw field text data =
     (if re_search True kw text \<noteq> None then
        (case re_search True depth_re text of
           None \<Rightarrow> Inr data
         | Some depth_match \<Rightarrow>
             if \<not> get_truthy data field then
               (case py_int (match_group depth_match 1) of
                  Inl e \<Rightarrow> Inl e
                | Inr value \<Rightarrow>
                    (case unit_to_cm (lower (group0 depth_match)) value of
                       Inl e \<Rightarrow> Inl e
                     | Inr value \<Rightarrow> Inr (dict_set field (PInt value) data)))
             else Inr data)
      else Inr data)"

definition container_step :: "pydict \<Rightarrow> string \<Rightarrow> error + pydict" where
  "container_step data container =
     (let text = strip container in
      (case container_depth (alts [Str ''base'', Str ''lower'', Str ''bottom''])
              ''snow_depth_base_cm'' text data of
         Inl e \<Rightarrow> Inl e
       | Inr data \<Rightarrow>
           container_depth (alts [Str ''summit'', Str ''top'', Str ''upper'', Str ''peak''])
             ''snow_depth_summit_cm'' text data))"

text \<open>The record after strategies 1 to 3 (lines 126 to 164).\<close>

definition strategies_1_to_3 :: "document \<Rightarrow> string \<Rightarrow> pydate \<Rightarrow> error + pydict" where
  "strategies_1_to_3 soup url today =
     (let data = [(''scraped_url'', PStr url), (''scrape_date'', PDate today)];
          data = dict_update data (find_json_data soup)
      in (case extract_from_meta_tags soup of
            Inl e \<Rightarrow> Inl e
          | Inr meta_data \<Rightarrow>
              for_loop container_step (dict_update data meta_data) (snow_containers soup)))"

text \<open>
  Strategy 4, the body of the \<^verbatim>\<open>try\<close> in the loop over the matches of one pattern: the
  value the match yields, or \<open>None\<close> where the sanity checks say \<^verbatim>\<open>continue\<close>.
\<close>

definition match_value_try :: "string \<Rightarrow> bool \<Rightarrow> rmatch \<Rightarrow> error + int option" where
  "match_value_try key is_inches m =
     (case py_int (match_group m 1) of
        Inl e \<Rightarrow> Inl e
      | Inr value \<Rightarrow>
          (let full_match = lower (group0 m) in
           (case (if (contains ''in'' full_match \<or> contains [quote] full_match)
                     \<or> (is_inches \<and> \<not> contains ''cm'' full_match)
                  then inches_to_cm value else Inr value) of
              Inl e \<Rightarrow> Inl e
            | Inr value \<Rightarrow>
                if key \<in> set [''base_depth'', ''summit_depth''] \<and> (value < 5 \<or> value > 1000)
                  then Inr None
                else if key \<in> set [''24h_snow'', ''48h_snow'', ''7d_snow''] \<and> value > 300
                  then Inr None
                else Inr (Some value))))"

text \<open>
  \<^verbatim>\<open>except (ValueError, IndexError): continue\<close>: a \<^verbatim>\<open>ValueError\<close> goes on to the next
  match, any other exception is passed on. Every pattern has the group that is read, so
  no \<^verbatim>\<open>IndexError\<close> is raised.
\<close>

definition match_value :: "string \<Rightarrow> bool \<Rightarrow> rmatch \<Rightarrow> error + int option" where
  "match_value key is_inches m =
     (case match_value_try key is_inches m of
        Inl e \<Rightarrow> if e = ValueError then Inr None else Inl e
      | Inr result \<Rightarrow> Inr result)"

text \<open>The loop over the matches stops (\<^verbatim>\<open>break\<close>) at the first value that passes.\<close>

fun first_value :: "string \<Rightarrow> bool \<Rightarrow> rmatch list \<Rightarrow> error + int option" where
  "first_value key is_inches [] = Inr None"
| "first_value key is_inches (m # ms) =
     (case match_value key is_inches m of
        Inl e \<Rightarrow> Inl e
      | Inr (Some value) \<Rightarrow> Inr (Some value)
      | Inr None \<Rightarrow> first_value key is_inches ms)"

text \<open>\<^verbatim>\<open># Map to database fields\<close>\<close>

definition store :: "string \<Rightarrow> int \<Rightarrow> pydict \<Rightarrow> pydict" where
  "store key value data =
     (if key = ''base_depth'' then dict_set ''snow_depth_base_cm'' (PInt value) data
      else if key = ''summit_depth'' then dict_set ''snow_depth_summit_cm'' (PInt value) data
      else if key = ''24h_snow'' then dict_set ''new_snow_24h_cm'' (PInt value) data
      else if key = ''48h_snow'' then dict_set ''new_snow_48h_cm'' (PInt value) data
      else if key = ''7d_snow'' then dict_set ''new_snow_7d_cm'' (PInt value) data
      else data)"

text \<open>
  The test \<^verbatim>\<open>data.get(key.replace('_', ''))\<close> of lines 208 and 245: the key of the
  pattern table with its underscores removed is looked up in the record.
\<close>

definition already_found :: "pydict \<Rightarrow> string \<Rightarrow> bool" where
  "already_found data key = get_truthy data (remove_char CHR ''_'' key)"

text \<open>The loop over the patterns of one key (lines 211 to 246).\<close>

fun try_patterns :: "string \<Rightarrow> bool \<Rightarrow> string \<Rightarrow> re list \<Rightarrow> pydict \<Rightarrow> error + pydict" where
  "try_patterns key is_inches text_content [] data = Inr data"
| "try_patterns key is_inches text_content (pattern # pattern_list) data =
     (case first_value key is_inches (finditer True pattern text_content) of
        Inl e \<Rightarrow> Inl e
      | Inr found \<Rightarrow>
          (let data = (case found of None \<Rightarrow> data | Some value \<Rightarrow> store key value data)
           in if already_found data key then Inr data
              else try_patterns key is_inches text_content pattern_list data))"

text \<open>The loop over the pattern table (lines 207 to 246).\<close>

fun scan_patterns :: "(string \<times> re list) list \<Rightarrow> bool \<Rightarrow> string \<Rightarrow> pydict \<Rightarrow> error + pydict" where
  "scan_patterns [] is_inches text_content data = Inr data"
| "scan_patterns ((key, pattern_list) # rest) is_inches text_content data =
     (if already_found data key then scan_patterns rest is_inches text_content data
      else (case try_patterns key is_inches text_content pattern_list data of
              Inl e \<Rightarrow> Inl e
            | Inr data \<Rightarrow> scan_patterns rest is_inches text_content data))"

definition strategy_4 :: "string \<Rightarrow> pydict \<Rightarrow> error + pydict" where
  "strategy_4 text_content data =
     (let is_inches = (re_search False inch_marker_re (take 1000 text_content) \<noteq> None)
      in scan_patterns patterns is_inches text_content data)"

text \<open>Strategy 5: both halves of a ratio are assigned from one match.\<close>

definition ratio :: "re \<Rightarrow> string \<Rightarrow> string \<Rightarrow> string \<Rightarrow> pydict \<Rightarrow> error + pydict" where
  "ratio pattern open_field total_field text_content data =
     (case re_search True pattern text_content of
        None \<Rightarrow> Inr data
      | Some m \<Rightarrow>
          (case py_int (match_group m 1) of
             Inl e \<Rightarrow> Inl e
           | Inr open_count \<Rightarrow>
               (case py_int (match_group m 2) of
                  Inl e \<Rightarrow> Inl e
                | Inr total_count \<Rightarrow>
                    Inr (dict_set total_field (PInt total_count)
                          (dict_set open_field (PInt open_count) data)))))"

definition strategy_5 :: "string \<Rightarrow> pydict \<Rightarrow> error + pydict" where
  "strategy_5 text_content data =
     (case ratio lifts_re ''lifts_open'' ''lifts_total'' text_content data of
        Inl e \<Rightarrow> Inl e
      | Inr data \<Rightarrow> ratio runs_re ''runs_open'' ''runs_total'' text_content data)"

text \<open>
  Strategy 6: the first pattern of \<^verbatim>\<open>temp_patterns\<close> that matches decides; the loop
  stops there (\<^verbatim>\<open>break\<close>).
\<close>

fun first_search :: "re list \<Rightarrow> string \<Rightarrow> rmatch option" where
  "first_search [] text_content = None"
| "first_search (pattern # rest) text_content =
     (case re_search False pattern text_content of
        Some temp_match \<Rightarrow> Some temp_match
      | None \<Rightarrow> first_search rest text_content)"

definition strategy_6 :: "string \<Rightarrow> pydict \<Rightarrow> error + pydict" where
  "strategy_6 text_content data =
     (case first_search temp_patterns text_content of
        None \<Rightarrow> Inr data
      | Some temp_match \<Rightarrow>
          (case py_int (match_group temp_match 1) of
             Inl e \<Rightarrow> Inl e
           | Inr temp \<Rightarrow>
               (case (if contains ''f'' (lower (group0 temp_match)) \<or> temp > 50
                      then fahrenheit_to_celsius temp else float_of_int temp) of
                  Inl e \<Rightarrow> Inl e
                | Inr celsius \<Rightarrow> Inr (dict_set ''temperature_base_c'' (PFloat celsius) data))))"

definition parse_snow_report_generic :: "document \<Rightarrow> string \<Rightarrow> pydate \<Rightarrow> error + pydict" where
  "parse_snow_report_generic soup url today =
     (case strategies_1_to_3 soup url today of
        Inl e \<Rightarrow> Inl e
      | Inr data \<Rightarrow>
          (let text_content = get_text soup in
           (case strategy_4 text_content data of
              Inl e \<Rightarrow> Inl e
            | Inr data \<Rightarrow>
                (case strategy_5 text_content data of
                   Inl e \<Rightarrow> Inl e
                 | Inr data \<Rightarrow> strategy_6 text_content data))))"

section \<open>Scraping one resort\<close>

text \<open>
  A resort is a dict of which the scrapers read \<^verbatim>\<open>name\<close> and, with \<^verbatim>\<open>get\<close>, the two
  URLs; \<open>None\<close> stands for a missing key or the value \<^verbatim>\<open>None\<close>.

  \<^verbatim>\<open>get_page\<close> answers with a parsed page or, after any failure, with \<open>None\<close>. The web
  is modelled as a function of the URLs requested so far and the URL requested now, and
  every scraper returns, next to its record or the exception it raises, the URLs it has
  requested, in order. The pauses (\<^verbatim>\<open>time.sleep\<close>) and the log messages are left out.
\<close>

record resort =
  name :: string
  snow_report_url :: "string option"
  website_url :: "string option"

type_synonym web = "string list \<Rightarrow> string \<Rightarrow> document option"

text \<open>The truth value of \<^verbatim>\<open>resort_data.get(field)\<close>.\<close>

definition url_present :: "string option \<Rightarrow> bool" where
  "url_present u = (case u of None \<Rightarrow> False | Some s \<Rightarrow> s \<noteq> [])"

text \<open>\<^verbatim>\<open>resort_data.get('snow_report_url') or resort_data.get('website_url')\<close>\<close>

definition first_url :: "resort \<Rightarrow> string option" where
  "first_url resort_data =
     (if url_present (snow_report_url resort_data) then snow_report_url resort_data
      else website_url resort_data)"

definition url_value :: "string option \<Rightarrow> pyval" where
  "url_value u = (case u of None \<Rightarrow> PNone | Some s \<Rightarrow> PStr s)"

definition urls_to_try :: "resort \<Rightarrow> string list" where
  "urls_to_try resort_data =
     (if url_present (snow_report_url resort_data) then [the (snow_report_url resort_data)] else [])
     @ (if url_present (website_url resort_data) then [the (website_url resort_data)] else [])"

definition meaningful_fields :: "string list" where
  "meaningful_fields = [''snow_depth_base_cm'', ''snow_depth_summit_cm'',
                        ''new_snow_24h_cm'', ''lifts_open'', ''runs_open'']"

text \<open>\<^verbatim>\<open>data and any(data.get(field) for field in meaningful_fields)\<close>\<close>

definition meaningful :: "pydict \<Rightarrow> bool" where
  "meaningful data = (data \<noteq> [] \<and> (\<exists>field \<in> set meaningful_fields. get_truthy data field))"

text \<open>
  The loop over \<^verbatim>\<open>urls_to_try\<close> of \<^verbatim>\<open>SnowDataScraper.scrape_resort\<close>: \<open>fetched\<close> are the
  URLs requested so far; the result is the record returned from inside the loop, if any,
  or the exception that the parser raised.
\<close>

fun try_urls ::
  "web \<Rightarrow> pydate \<Rightarrow> string list \<Rightarrow> string list \<Rightarrow> (error + pydict option) \<times> string list" where
  "try_urls get_page today fetched [] = (Inr None, fetched)"
| "try_urls get_page today fetched (url # urls) =
     (case get_page fetched url of
        None \<Rightarrow> try_urls get_page today (fetched @ [url]) urls
      | Some soup \<Rightarrow>
          (case parse_snow_report_generic soup url today of
             Inl e \<Rightarrow> (Inl e, fetched @ [url])
           | Inr data \<Rightarrow>
               if meaningful data then (Inr (Some data), fetched @ [url])
               else try_urls get_page today (fetched @ [url]) urls))"

text \<open>\<^verbatim>\<open>SnowDataScraper.scrape_resort\<close>\<close>

definition scrape_resort :: "web \<Rightarrow> pydate \<Rightarrow> resort \<Rightarrow> (error + pydict) \<times> string list" where
  "scrape_resort get_page today resort_data =
     (case try_urls get_page today [] (urls_to_try resort_data) of
        (Inl e, fetched) \<Rightarrow> (Inl e, fetched)
      | (Inr (Some data), fetched) \<Rightarrow> (Inr data, fetched)
      | (Inr None, fetched) \<Rightarrow>
          (Inr [(''scraped_url'', url_value (first_url resort_data)),
                (''scrape_date'', PDate today)], fetched))"

text \<open>
  The Vail pass over one element found by a selector: the first number of its text, taken
  as inches, goes to the base or the summit depth as the text of the parent says.
\<close>

definition depth_element_step :: "pydict \<Rightarrow> string \<times> string \<Rightarrow> error + pydict" where
  "depth_element_step data elem =
     (case elem of (elem_text, parent) \<Rightarrow>
        (case re_search False number_re (strip elem_text) of
           None \<Rightarrow> Inr data
         | Some m \<Rightarrow>
             (case py_int (match_group m 1) of
                Inl e \<Rightarrow> Inl e
              | Inr value \<Rightarrow>
                  (case inches_to_cm value of
                     Inl e \<Rightarrow> Inl e
                   | Inr value_cm \<Rightarrow>
                       (let context = lower parent
                        in if contains ''base'' context \<or> contains ''lower'' context
                             then Inr (dict_set ''snow_depth_base_cm'' (PInt value_cm) data)
                           else if contains ''summit'' context \<or> contains ''top'' context
                                   \<or> contains ''upper'' context
                             then Inr (dict_set ''snow_depth_summit_cm'' (PInt value_cm) data)
                           else Inr data)))))"

text \<open>
  A loop inside \<^verbatim>\<open>try: ... except Exception:\<close> whose handler only writes to the log: an
  exception ends the loop, and the record keeps what was assigned before.
\<close>

fun loop_until_error :: "('s \<Rightarrow> 'a \<Rightarrow> error + 's) \<Rightarrow> 's \<Rightarrow> 'a list \<Rightarrow> 's" where
  "loop_until_error body s [] = s"
| "loop_until_error body s (x # xs) =
     (case body s x of
        Inl e \<Rightarrow> s
      | Inr s' \<Rightarrow> loop_until_error body s' xs)"

text \<open>
  The record of the specialized pass (lines 331 to 360): the elements of the three
  selectors, one selector after the other, inside the \<^verbatim>\<open>try\<close> block.
\<close>

definition vail_pass :: "document \<Rightarrow> string \<Rightarrow> pydate \<Rightarrow> pydict" where
  "vail_pass soup url today =
     loop_until_error depth_element_step
       [(''scraped_url'', PStr url), (''scrape_date'', PDate today)]
       (concat (depth_elements soup))"

text \<open>\<^verbatim>\<open>{k: v for k, v in generic_data.items() if k not in data or not data[k]}\<close>\<close>

definition unresolved_items :: "pydict \<Rightarrow> pydict \<Rightarrow> pydict" where
  "unresolved_items data generic_data =
     filter (\<lambda>(k, v). case dict_get data k of None \<Rightarrow> True | Some x \<Rightarrow> \<not> truthy x) generic_data"

text \<open>The fallback to the generic parser (lines 362 to 367), outside the \<^verbatim>\<open>try\<close> block.\<close>

definition vail_fallback :: "document \<Rightarrow> string \<Rightarrow> pydate \<Rightarrow> pydict \<Rightarrow> error + pydict" where
  "vail_fallback soup url today data =
     (if \<not> get_truthy data ''snow_depth_base_cm''
      then (case parse_snow_report_generic soup url today of
              Inl e \<Rightarrow> Inl e
            | Inr generic_data \<Rightarrow> Inr (dict_update data (unresolved_items data generic_data)))
      else Inr data)"

text \<open>\<^verbatim>\<open>VailResortsScraper.scrape_resort\<close>\<close>

definition vail_scrape_resort :: "web \<Rightarrow> pydate \<Rightarrow> resort \<Rightarrow> (error + pydict) \<times> string list" where
  "vail_scrape_resort get_page today resort_data =
     (let url = first_url resort_data in
      if \<not> url_present url then (Inr [], [])
      else (case get_page [] (the url) of
              None \<Rightarrow> (Inr [], [the url])
            | Some soup \<Rightarrow>
                (vail_fallback soup (the url) today (vail_pass soup (the url) today), [the url])))"

text \<open>\<^verbatim>\<open>get_scraper_for_resort\<close>\<close>

datatype scraper = SnowDataScraper | VailResortsScraper

definition vail_resorts :: "string list" where
  "vail_resorts = [''Vail'', ''Breckenridge'', ''Keystone'', ''Park City'',
                   ''Heavenly'', ''Stowe'', ''Killington'']"

definition get_scraper_for_resort :: "string \<Rightarrow> scraper" where
  "get_scraper_for_resort resort_name =
     (if resort_name \<in> set vail_resorts then VailResortsScraper else SnowDataScraper)"

fun scrape :: "scraper \<Rightarrow> web \<Rightarrow> pydate \<Rightarrow> resort \<Rightarrow> (error + pydict) \<times> string list" where
  "scrape SnowDataScraper get_page today resort_data = scrape_resort get_page today resort_data"
| "scrape VailResortsScraper get_page today resort_data =
     vail_scrape_resort get_page today resort_data"

section \<open>Properties of records\<close>

definition keys :: "pydict \<Rightarrow> string set" where
  "keys d = fst ` set d"

definition depth_fields :: "string set" where
  "depth_fields = {''snow_depth_base_cm'', ''snow_depth_summit_cm''}"

definition snowfall_fields :: "string set" where
  "snowfall_fields = {''new_snow_24h_cm'', ''new_snow_48h_cm'', ''new_snow_7d_cm''}"

text \<open>
  The sanity bounds: a depth lies in [5, 1000] cm, a snowfall is at most 300 cm. Only
  the integer value of a depth or snowfall field is constrained.
\<close>

fun value_ok :: "string \<Rightarrow> pyval \<Rightarrow> bool" where
  "value_ok field (PInt n) =
     ((field \<in> depth_fields \<longrightarrow> 5 \<le> n \<and> n \<le> 1000) \<and> (field \<in> snowfall_fields \<longrightarrow> n \<le> 300))"
| "value_ok field v = True"

definition within_bounds :: "pydict \<Rightarrow> bool" where
  "within_bounds d = (\<forall>(field, v) \<in> set d. value_ok field v)"

text \<open>The field holds an integer that is within its bounds.\<close>

definition bounded :: "string \<Rightarrow> pyval option \<Rightarrow> bool" where
  "bounded field x = (\<exists>n. x = Some (PInt n) \<and> value_ok field (PInt n))"

text \<open>The two halves of the lift ratio, and of the run ratio, are present together.\<close>

definition paired :: "pydict \<Rightarrow> bool" where
  "paired d =
     ((dict_get d ''lifts_open'' = None \<longleftrightarrow> dict_get d ''lifts_total'' = None)
      \<and> (dict_get d ''runs_open'' = None \<longleftrightarrow> dict_get d ''runs_total'' = None))"

text \<open>An open count does not exceed its total, where both are there.\<close>

fun count_le :: "pyval option \<Rightarrow> pyval option \<Rightarrow> bool" where
  "count_le (Some (PInt a)) (Some (PInt b)) = (a \<le> b)"
| "count_le x y = True"

definition counts_ordered :: "pydict \<Rightarrow> bool" where
  "counts_ordered d =
     (count_le (dict_get d ''lifts_open'') (dict_get d ''lifts_total'')
      \<and> count_le (dict_get d ''runs_open'') (dict_get d ''runs_total''))"

text \<open>
  One round of the loop of \<^verbatim>\<open>scrape_resort\<close> goes on to the next URL: the fetch fails,
  or the parser returns a record that is not meaningful.
\<close>

definition no_result :: "web \<Rightarrow> pydate \<Rightarrow> string list \<Rightarrow> string \<Rightarrow> bool" where
  "no_result get_page today fetched url =
     (case get_page fetched url of
        None \<Rightarrow> True
      | Some soup \<Rightarrow>
          (case parse_snow_report_generic soup url today of
             Inl e \<Rightarrow> False
           | Inr data \<Rightarrow> \<not> meaningful data))"

fun all_fail :: "web \<Rightarrow> pydate \<Rightarrow> string list \<Rightarrow> string list \<Rightarrow> bool" where
  "all_fail get_page today fetched [] = True"
| "all_fail get_page today fetched (url # urls) =
     (no_result get_page today fetched url \<and> all_fail get_page today (fetched @ [url]) urls)"


text \<open>
  The conversions in the words of the specification, on exact numbers: the integer floor
  of \<open>x \<times> 2.54\<close>, and \<open>(x - 32) \<times> 5/9\<close> rounded to one decimal place (to the nearest
  tenth; for an integer \<open>x\<close> no tie occurs).
\<close>

definition spec_inches_to_cm :: "rat \<Rightarrow> int" where
  "spec_inches_to_cm x = \<lfloor>x * (254 / 100)\<rfloor>"

definition spec_fahrenheit_to_celsius :: "rat \<Rightarrow> rat" where
  "spec_fahrenheit_to_celsius x = of_int (round_he ((x - 32) * 5 / 9 * 10)) / 10"

section \<open>Pages, resorts and webs used as examples\<close>

definition day :: pydate where
  "day = Date 2024 1 15"

text \<open>A page with nothing but text outside of any marked element.\<close>

definition text_page :: "string \<Rightarrow> document" where
  "text_page t = \<lparr>data_snow = [], meta_tags = [], snow_containers = [], get_text = t,
                  depth_elements = []\<rparr>"

text \<open>The scenario of the specification.\<close>

definition scenario_page :: document where
  "scenario_page =
     text_page ''Base Depth: 42in, Summit: 61in, 24hr Snowfall: 8in, 5/10 lifts open''"

text \<open>\<^verbatim>\<open><div class="snow-depth" data-snow="500">Base: 4000cm</div>\<close>\<close>

definition oversized_page :: document where
  "oversized_page = \<lparr>data_snow = [''500''], meta_tags = [],
                      snow_containers = [''Base: 4000cm''], get_text = ''Base: 4000cm'',
                      depth_elements = []\<rparr>"

text \<open>
  \<^verbatim>\<open><meta name="description" content="Snow report: base 40cm">\<close> in the head and
  \<^verbatim>\<open>Base: 50cm\<close> in the body.
\<close>

definition meta_page :: document where
  "meta_page = \<lparr>data_snow = [],
                 meta_tags = [(''Snow report: base 40cm'', ''description'', '''')],
                 snow_containers = [], get_text = ''Base: 50cm'', depth_elements = []\<rparr>"

text \<open>\<^verbatim>\<open><p>Base: <span class="snow-depth">42</span></p> <p>Summit: 61in</p>\<close>\<close>

definition base_page :: document where
  "base_page = \<lparr>data_snow = [], meta_tags = [], snow_containers = [''42''],
                 get_text = ''Base: 42 Summit: 61in'',
                 depth_elements =
                   [[(''42'', ''<p>Base: <span class='' @ [quote] @ ''snow-depth'' @ [quote]
                             @ ''>42</span></p>'')], [], []]\<rparr>"

text \<open>\<^verbatim>\<open><p>Summit: <span class="snow-depth">61</span></p> <p>Base: 42in</p>\<close>\<close>

definition summit_page :: document where
  "summit_page = \<lparr>data_snow = [], meta_tags = [], snow_containers = [''61''],
                   get_text = ''Summit: 61 Base: 42in'',
                   depth_elements =
                     [[(''61'', ''<p>Summit: <span class='' @ [quote] @ ''snow-depth'' @ [quote]
                               @ ''>61</span></p>'')], [], []]\<rparr>"

definition alta :: resort where
  "alta = \<lparr>name = ''Alta'', snow_report_url = Some ''https://alta.com/snow'',
            website_url = Some ''https://alta.com''\<rparr>"

definition vail :: resort where
  "vail = \<lparr>name = ''Vail'', snow_report_url = Some ''https://vail.com/snow'',
            website_url = Some ''https://vail.com''\<rparr>"

definition keystone :: resort where
  "keystone = \<lparr>name = ''Keystone'', snow_report_url = None, website_url = Some ''''\<rparr>"

text \<open>Every request fails.\<close>

definition offline :: web where
  "offline = (\<lambda>fetched url. None)"

text \<open>Every request is answered with the same page.\<close>

definition serving :: "document \<Rightarrow> web" where
  "serving page = (\<lambda>fetched url. Some page)"

text \<open>The snow report says that no lift runs, the home page that five do.\<close>

definition closed_web :: web where
  "closed_web = (\<lambda>fetched url.
     if url = ''https://alta.com/snow'' then Some (text_page ''0/10 lifts'')
     else if url = ''https://alta.com'' then Some (text_page ''5/10 lifts'')
     else None)"



section \<open>Lemmas\<close>

lemma keys_Nil: "keys [] = {}"
  by (simp add: keys_def)

lemma keys_Cons: "keys ((k, v) # d) = insert k (keys d)"
  by (simp add: keys_def)

lemma map_fst_dict_set:
  "map fst (dict_set k v d) = (if k \<in> set (map fst d) then map fst d else map fst d @ [k])"
  by (induction d) (force+)

lemma keys_dict_set: "keys (dict_set k v d) = insert k (keys d)"
proof -
  have "set (map fst (dict_set k v d)) = insert k (set (map fst d))"
    unfolding map_fst_dict_set by auto
  then show ?thesis by (simp add: keys_def)
qed

lemma dict_get_dict_set: "dict_get (dict_set k v d) k' = (if k' = k then Some v else dict_get d k')"
  by (induction d) (auto simp: dict_get_def)

lemma distinct_dict_set: "distinct (map fst d) \<Longrightarrow> distinct (map fst (dict_set k v d))"
  by (simp add: map_fst_dict_set)

lemma dict_get_None_iff: "dict_get d k = None \<longleftrightarrow> k \<notin> keys d"
  by (simp add: dict_get_def keys_def map_of_eq_None_iff)

lemma keys_dict_update: "keys (dict_update d items) = keys d \<union> keys items"
proof (induction d items rule: dict_update.induct)
  case (1 d)
  then show ?case by (simp add: keys_def)
next
  case (2 d k v other)
  have "keys ((k, v) # other) = insert k (keys other)" by (simp add: keys_def)
  with 2 show ?case by (simp add: keys_dict_set)
qed

lemma distinct_dict_update: "distinct (map fst d) \<Longrightarrow> distinct (map fst (dict_update d items))"
  by (induction d items rule: dict_update.induct) (simp_all add: distinct_dict_set)

lemma dict_get_dict_update:
  "dict_get (dict_update d items) k =
     (case map_of (rev items) k of None \<Rightarrow> dict_get d k | Some v \<Rightarrow> Some v)"
proof (induction d items rule: dict_update.induct)
  case (1 d)
  then show ?case by simp
next
  case (2 d k' v other)
  then show ?case
    by (simp add: dict_get_dict_set map_add_def split: option.splits)
qed

lemma map_of_filter_key:
  "map_of (filter (\<lambda>(k, v). Q k) xs) k = (if Q k then map_of xs k else None)"
  by (induction xs) auto

lemma map_of_rev_distinct: "distinct (map fst xs) \<Longrightarrow> map_of (rev xs) = map_of xs"
  by (rule map_of_inject_set [THEN iffD2]) (simp_all add: rev_map [symmetric])

lemma foldl_invariant:
  "P d \<Longrightarrow> (\<And>d x. P d \<Longrightarrow> P (f d x)) \<Longrightarrow> P (foldl f d xs)"
  by (induction xs arbitrary: d) auto

lemma for_loop_invariant:
  "for_loop f d xs = Inr r \<Longrightarrow> P d \<Longrightarrow> (\<And>d x d'. P d \<Longrightarrow> f d x = Inr d' \<Longrightarrow> P d') \<Longrightarrow> P r"
proof (induction xs arbitrary: d)
  case Nil
  then show ?case by simp
next
  case (Cons x xs)
  from Cons.prems(1) obtain d' where s: "f d x = Inr d'" and r: "for_loop f d' xs = Inr r"
    by (cases "f d x") auto
  from Cons.prems(3) [OF Cons.prems(2) s] have "P d'" .
  from Cons.IH [OF r this Cons.prems(3)] show ?case .
qed

lemma for_loop_untouched:
  assumes "for_loop f d xs = Inr r"
    and "\<And>d x d'. f d x = Inr d' \<Longrightarrow> dict_get d' k = dict_get d k"
  shows "dict_get r k = dict_get d k"
  by (rule for_loop_invariant [OF assms(1), where P = "\<lambda>c. dict_get c k = dict_get d k"])
     (simp_all add: assms(2))

lemma loop_until_error_invariant:
  "P d \<Longrightarrow> (\<And>d x d'. P d \<Longrightarrow> f d x = Inr d' \<Longrightarrow> P d') \<Longrightarrow> P (loop_until_error f d xs)"
proof (induction xs arbitrary: d)
  case Nil
  then show ?case by simp
next
  case (Cons x xs)
  show ?case
  proof (cases "f d x")
    case (Inl e)
    with Cons.prems(1) show ?thesis by simp
  next
    case (Inr d')
    from Cons.prems(2) [OF Cons.prems(1) Inr] have "P d'" .
    from Cons.IH [OF this Cons.prems(2)] Inr show ?thesis by simp
  qed
qed

lemma dict_get_dict_update_other:
  "k \<notin> keys items \<Longrightarrow> dict_get (dict_update d items) k = dict_get d k"
proof -
  assume "k \<notin> keys items"
  then have "map_of (rev items) k = None"
    by (simp add: map_of_eq_None_iff keys_def)
  then show ?thesis by (simp add: dict_get_dict_update)
qed

lemma keys_find_json_data: "keys (find_json_data soup) \<subseteq> {''new_snow_24h_cm''}"
  unfolding find_json_data_def
  by (rule foldl_invariant) (simp_all add: keys_Nil keys_dict_set split: option.splits sum.splits)

lemma keys_meta_step:
  "meta_step d x = Inr d' \<Longrightarrow> keys d \<subseteq> {''snow_depth_base_cm'', ''new_snow_24h_cm''} \<Longrightarrow>
   keys d' \<subseteq> {''snow_depth_base_cm'', ''new_snow_24h_cm''}"
  by (cases x)
     (auto simp: meta_step_def Let_def keys_dict_set split: option.splits sum.splits if_splits)

lemma keys_extract_from_meta_tags:
  assumes "extract_from_meta_tags soup = Inr m"
  shows "keys m \<subseteq> {''snow_depth_base_cm'', ''new_snow_24h_cm''}"
  by (rule for_loop_invariant [OF assms [unfolded extract_from_meta_tags_def]])
     (simp_all add: keys_Nil keys_meta_step)

lemma container_depth_other:
  "container_depth kw field text d = Inr d' \<Longrightarrow> k \<noteq> field \<Longrightarrow> dict_get d' k = dict_get d k"
  by (auto simp: container_depth_def dict_get_dict_set split: option.splits sum.splits if_splits)

lemma container_step_other:
  assumes "container_step d c = Inr d'"
    and "k \<noteq> ''snow_depth_base_cm''" "k \<noteq> ''snow_depth_summit_cm''"
  shows "dict_get d' k = dict_get d k"
proof -
  from assms(1) obtain d1 where
    a: "container_depth (alts [Str ''base'', Str ''lower'', Str ''bottom''])
          ''snow_depth_base_cm'' (strip c) d = Inr d1" and
    b: "container_depth (alts [Str ''summit'', Str ''top'', Str ''upper'', Str ''peak''])
          ''snow_depth_summit_cm'' (strip c) d1 = Inr d'"
    by (auto simp: container_step_def Let_def split: sum.splits)
  from container_depth_other [OF b assms(3)] container_depth_other [OF a assms(2)]
  show ?thesis by simp
qed

lemma strategies_1_to_3_other:
  assumes "strategies_1_to_3 soup url today = Inr d"
    and "k \<noteq> ''snow_depth_base_cm''" "k \<noteq> ''snow_depth_summit_cm''" "k \<noteq> ''new_snow_24h_cm''"
  shows "dict_get d k = dict_get [(''scraped_url'', PStr url), (''scrape_date'', PDate today)] k"
proof -
  define d0 where "d0 = [(''scraped_url'', PStr url), (''scrape_date'', PDate today)]"
  from assms(1) obtain m where m: "extract_from_meta_tags soup = Inr m"
    and l: "for_loop container_step (dict_update (dict_update d0 (find_json_data soup)) m)
              (snow_containers soup) = Inr d"
    by (auto simp: strategies_1_to_3_def Let_def d0_def split: sum.splits)
  have j: "k \<notin> keys (find_json_data soup)"
    using keys_find_json_data [of soup] assms by auto
  have n: "k \<notin> keys m"
    using keys_extract_from_meta_tags [OF m] assms by auto
  have "dict_get d k = dict_get (dict_update (dict_update d0 (find_json_data soup)) m) k"
    by (rule for_loop_untouched [OF l]) (rule container_step_other [OF _ assms(2,3)])
  also have "\<dots> = dict_get d0 k"
    by (simp only: dict_get_dict_update_other [OF n] dict_get_dict_update_other [OF j])
  finally show ?thesis unfolding d0_def .
qed

lemma store_other:
  "k \<notin> {''snow_depth_base_cm'', ''snow_depth_summit_cm'', ''new_snow_24h_cm'',
          ''new_snow_48h_cm'', ''new_snow_7d_cm''} \<Longrightarrow>
   dict_get (store key value d) k = dict_get d k"
  by (simp add: store_def dict_get_dict_set)

lemma try_patterns_step:
  assumes "try_patterns key is_inches t (p # ps) d = Inr r"
  obtains found where "first_value key is_inches (finditer True p t) = Inr found"
    and "r = (case found of None \<Rightarrow> d | Some value \<Rightarrow> store key value d)
         \<or> try_patterns key is_inches t ps
              (case found of None \<Rightarrow> d | Some value \<Rightarrow> store key value d) = Inr r"
proof (cases "first_value key is_inches (finditer True p t)")
  case (Inl e)
  with assms show ?thesis by simp
next
  case (Inr found)
  with assms have
    "r = (case found of None \<Rightarrow> d | Some value \<Rightarrow> store key value d)
     \<or> try_patterns key is_inches t ps
          (case found of None \<Rightarrow> d | Some value \<Rightarrow> store key value d) = Inr r"
    by (simp add: Let_def split: if_splits)
  with Inr show ?thesis by (rule that)
qed

lemma try_patterns_other:
  assumes "k \<notin> {''snow_depth_base_cm'', ''snow_depth_summit_cm'', ''new_snow_24h_cm'',
          ''new_snow_48h_cm'', ''new_snow_7d_cm''}"
  shows "try_patterns key is_inches t ps d = Inr r \<Longrightarrow> dict_get r k = dict_get d k"
proof (induction ps arbitrary: d)
  case Nil
  then show ?case by simp
next
  case (Cons p ps)
  from Cons.prems obtain found where
    c: "r = (case found of None \<Rightarrow> d | Some value \<Rightarrow> store key value d)
         \<or> try_patterns key is_inches t ps
              (case found of None \<Rightarrow> d | Some value \<Rightarrow> store key value d) = Inr r"
    by (rule try_patterns_step)
  define d' where "d' = (case found of None \<Rightarrow> d | Some value \<Rightarrow> store key value d)"
  have s: "dict_get d' k = dict_get d k"
    unfolding d'_def by (cases found) (simp_all add: store_other [OF assms])
  from c have "r = d' \<or> try_patterns key is_inches t ps d' = Inr r"
    unfolding d'_def .
  with Cons.IH [of d'] s show ?case by auto
qed

lemma scan_patterns_other:
  assumes "k \<notin> {''snow_depth_base_cm'', ''snow_depth_summit_cm'', ''new_snow_24h_cm'',
          ''new_snow_48h_cm'', ''new_snow_7d_cm''}"
  shows "scan_patterns table is_inches t d = Inr r \<Longrightarrow> dict_get r k = dict_get d k"
proof (induction table is_inches t d rule: scan_patterns.induct)
  case (1 is_inches t d)
  then show ?case by simp
next
  case (2 key pattern_list rest is_inches t d)
  show ?case
  proof (cases "already_found d key")
    case True
    with 2 show ?thesis by simp
  next
    case False
    with 2(3) obtain d' where
      a: "try_patterns key is_inches t pattern_list d = Inr d'" and
      b: "scan_patterns rest is_inches t d' = Inr r"
      by (auto split: sum.splits)
    from 2(2) [OF False a b] try_patterns_other [OF assms a] show ?thesis by simp
  qed
qed

lemma strategy_4_other:
  "strategy_4 t d = Inr r \<Longrightarrow>
   k \<notin> {''snow_depth_base_cm'', ''snow_depth_summit_cm'', ''new_snow_24h_cm'',
          ''new_snow_48h_cm'', ''new_snow_7d_cm''} \<Longrightarrow>
   dict_get r k = dict_get d k"
  unfolding strategy_4_def Let_def by (rule scan_patterns_other)

lemma ratio_other:
  "ratio p open_field total_field t d = Inr r \<Longrightarrow> k \<noteq> open_field \<Longrightarrow> k \<noteq> total_field \<Longrightarrow>
   dict_get r k = dict_get d k"
  by (auto simp: ratio_def dict_get_dict_set split: option.splits sum.splits)

lemma ratio_paired:
  "ratio p open_field total_field t d = Inr r \<Longrightarrow> open_field \<noteq> total_field \<Longrightarrow>
   (dict_get d open_field = None \<longleftrightarrow> dict_get d total_field = None) \<Longrightarrow>
   (dict_get r open_field = None \<longleftrightarrow> dict_get r total_field = None)"
  by (auto simp: ratio_def dict_get_dict_set split: option.splits sum.splits)

lemma strategy_5_cases:
  assumes "strategy_5 t d = Inr r"
  obtains d5 where "ratio lifts_re ''lifts_open'' ''lifts_total'' t d = Inr d5"
    and "ratio runs_re ''runs_open'' ''runs_total'' t d5 = Inr r"
  using assms by (auto simp: strategy_5_def split: sum.splits)

lemma strategy_5_other:
  assumes "strategy_5 t d = Inr r"
    and "k \<notin> {''lifts_open'', ''lifts_total'', ''runs_open'', ''runs_total''}"
  shows "dict_get r k = dict_get d k"
proof -
  from assms(1) obtain d5 where a: "ratio lifts_re ''lifts_open'' ''lifts_total'' t d = Inr d5"
    and b: "ratio runs_re ''runs_open'' ''runs_total'' t d5 = Inr r"
    by (rule strategy_5_cases)
  from assms(2) have "k \<noteq> ''lifts_open''" "k \<noteq> ''lifts_total''" "k \<noteq> ''runs_open''"
    "k \<noteq> ''runs_total''" by auto
  with ratio_other [OF a, of k] ratio_other [OF b, of k] show ?thesis by simp
qed

lemma strategy_6_other:
  "strategy_6 t d = Inr r \<Longrightarrow> k \<noteq> ''temperature_base_c'' \<Longrightarrow> dict_get r k = dict_get d k"
  by (auto simp: strategy_6_def dict_get_dict_set split: option.splits sum.splits)

lemma parse_cases:
  assumes "parse_snow_report_generic soup url today = Inr r"
  obtains d3 d4 d5 where "strategies_1_to_3 soup url today = Inr d3"
    and "strategy_4 (get_text soup) d3 = Inr d4"
    and "strategy_5 (get_text soup) d4 = Inr d5"
    and "strategy_6 (get_text soup) d5 = Inr r"
  using assms by (auto simp: parse_snow_report_generic_def Let_def split: sum.splits)

lemma guarded_value:
  fixes v n :: int
  shows "(if D \<and> (v < 5 \<or> v > 1000) then Inr None else if S \<and> v > 300 then Inr None
          else Inr (Some v)) = (Inr (Some n) :: error + int option)
    \<Longrightarrow> (D \<longrightarrow> 5 \<le> n \<and> n \<le> 1000) \<and> (S \<longrightarrow> n \<le> 300)"
  by (cases "D \<and> (v < 5 \<or> v > 1000)"; cases "S \<and> v > 300") auto

lemma match_value_try_bounds:
  assumes "match_value_try key is_inches m = Inr (Some n)"
  shows "(key \<in> set [''base_depth'', ''summit_depth''] \<longrightarrow> 5 \<le> n \<and> n \<le> 1000)
   \<and> (key \<in> set [''24h_snow'', ''48h_snow'', ''7d_snow''] \<longrightarrow> n \<le> 300)"
proof (cases "py_int (match_group m 1)")
  case (Inl e)
  with assms show ?thesis by (simp add: match_value_try_def)
next
  case a: (Inr val)
  define c where "c = (if (contains ''in'' (lower (group0 m)) \<or> contains [quote] (lower (group0 m)))
                     \<or> (is_inches \<and> \<not> contains ''cm'' (lower (group0 m)))
                  then inches_to_cm val else Inr val)"
  have eq: "match_value_try key is_inches m =
      (case c of
         Inl e \<Rightarrow> Inl e
       | Inr v \<Rightarrow>
           if key \<in> set [''base_depth'', ''summit_depth''] \<and> (v < 5 \<or> v > 1000) then Inr None
           else if key \<in> set [''24h_snow'', ''48h_snow'', ''7d_snow''] \<and> v > 300 then Inr None
           else Inr (Some v))"
    unfolding match_value_try_def Let_def a c_def by (simp only: sum.case)
  show ?thesis
  proof (cases c)
    case (Inl e)
    with assms show ?thesis unfolding eq by simp
  next
    case (Inr v)
    from assms have
      "(if key \<in> set [''base_depth'', ''summit_depth''] \<and> (v < 5 \<or> v > 1000) then Inr None
        else if key \<in> set [''24h_snow'', ''48h_snow'', ''7d_snow''] \<and> v > 300 then Inr None
        else Inr (Some v)) = (Inr (Some n) :: error + int option)"
      unfolding eq Inr by (simp only: sum.case)
    then show ?thesis by (rule guarded_value)
  qed
qed

lemma match_value_bounds:
  assumes "match_value key is_inches m = Inr (Some n)"
  shows "(key \<in> set [''base_depth'', ''summit_depth''] \<longrightarrow> 5 \<le> n \<and> n \<le> 1000)
   \<and> (key \<in> set [''24h_snow'', ''48h_snow'', ''7d_snow''] \<longrightarrow> n \<le> 300)"
proof -
  from assms have "match_value_try key is_inches m = Inr (Some n)"
    by (auto simp: match_value_def split: sum.splits if_splits)
  then show ?thesis by (rule match_value_try_bounds)
qed

lemma first_value_bounds:
  "first_value key is_inches ms = Inr (Some n) \<Longrightarrow>
   (key \<in> set [''base_depth'', ''summit_depth''] \<longrightarrow> 5 \<le> n \<and> n \<le> 1000)
   \<and> (key \<in> set [''24h_snow'', ''48h_snow'', ''7d_snow''] \<longrightarrow> n \<le> 300)"
proof (induction ms)
  case Nil
  then show ?case by simp
next
  case (Cons m ms)
  show ?case
  proof (cases "match_value key is_inches m")
    case (Inl e)
    with Cons.prems show ?thesis by simp
  next
    case (Inr found)
    show ?thesis
    proof (cases found)
      case None
      with Inr Cons show ?thesis by simp
    next
      case (Some v)
      with Inr Cons.prems have "v = n" by simp
      with Some Inr match_value_bounds [of key is_inches m n] show ?thesis by simp
    qed
  qed
qed

lemma store_kept_or_bounded:
  assumes "(key \<in> set [''base_depth'', ''summit_depth''] \<longrightarrow> 5 \<le> n \<and> n \<le> 1000)
           \<and> (key \<in> set [''24h_snow'', ''48h_snow'', ''7d_snow''] \<longrightarrow> n \<le> 300)"
  shows "dict_get (store key n d) field = dict_get d field \<or> bounded field (dict_get (store key n d) field)"
  using assms
  by (simp add: store_def dict_get_dict_set bounded_def depth_fields_def snowfall_fields_def)

lemma try_patterns_kept_or_bounded:
  "try_patterns key is_inches t ps d = Inr r \<Longrightarrow>
   dict_get r field = dict_get d field \<or> bounded field (dict_get r field)"
proof (induction ps arbitrary: d)
  case Nil
  then show ?case by simp
next
  case (Cons p ps)
  from Cons.prems obtain found where
    f: "first_value key is_inches (finditer True p t) = Inr found" and
    c: "r = (case found of None \<Rightarrow> d | Some value \<Rightarrow> store key value d)
         \<or> try_patterns key is_inches t ps
              (case found of None \<Rightarrow> d | Some value \<Rightarrow> store key value d) = Inr r"
    by (rule try_patterns_step)
  define d' where "d' = (case found of None \<Rightarrow> d | Some value \<Rightarrow> store key value d)"
  have step: "dict_get d' field = dict_get d field \<or> bounded field (dict_get d' field)"
  proof (cases found)
    case None
    then show ?thesis by (simp add: d'_def)
  next
    case (Some n)
    with f have "first_value key is_inches (finditer True p t) = Inr (Some n)" by simp
    from store_kept_or_bounded [OF first_value_bounds [OF this]] Some
    show ?thesis by (simp add: d'_def)
  qed
  from c have "r = d' \<or> try_patterns key is_inches t ps d' = Inr r"
    unfolding d'_def .
  with step Cons.IH [of d'] show ?case by auto
qed

lemma scan_patterns_kept_or_bounded:
  "scan_patterns table is_inches t d = Inr r \<Longrightarrow>
   dict_get r field = dict_get d field \<or> bounded field (dict_get r field)"
proof (induction table is_inches t d rule: scan_patterns.induct)
  case (1 is_inches t d)
  then show ?case by simp
next
  case (2 key pattern_list rest is_inches t d)
  show ?case
  proof (cases "already_found d key")
    case True
    with 2 show ?thesis by simp
  next
    case False
    with 2(3) obtain d' where
      a: "try_patterns key is_inches t pattern_list d = Inr d'" and
      b: "scan_patterns rest is_inches t d' = Inr r"
      by (auto split: sum.splits)
    from 2(2) [OF False a b] try_patterns_kept_or_bounded [OF a, of field]
    show ?thesis by auto
  qed
qed

lemma later_strategies_keep:
  assumes "strategy_5 t d = Inr d5" and "strategy_6 t d5 = Inr r"
    and "field \<in> depth_fields \<union> snowfall_fields"
  shows "dict_get r field = dict_get d field"
proof -
  from assms(3) have a: "field \<noteq> ''temperature_base_c''"
    and b: "field \<notin> {''lifts_open'', ''lifts_total'', ''runs_open'', ''runs_total''}"
    by (auto simp: depth_fields_def snowfall_fields_def)
  from strategy_6_other [OF assms(2) a] strategy_5_other [OF assms(1) b]
  show ?thesis by simp
qed

lemma parse_paired:
  assumes "parse_snow_report_generic soup url today = Inr r"
  shows "paired r"
proof -
  from assms obtain d3 d4 d6 where d3: "strategies_1_to_3 soup url today = Inr d3"
    and d4: "strategy_4 (get_text soup) d3 = Inr d4"
    and s5: "strategy_5 (get_text soup) d4 = Inr d6"
    and s6: "strategy_6 (get_text soup) d6 = Inr r"
    by (rule parse_cases)
  from s5 obtain d5 where
    d5: "ratio lifts_re ''lifts_open'' ''lifts_total'' (get_text soup) d4 = Inr d5" and
    d6: "ratio runs_re ''runs_open'' ''runs_total'' (get_text soup) d5 = Inr d6"
    by (rule strategy_5_cases)
  have none: "dict_get d4 k = None"
    if "k \<in> {''lifts_open'', ''lifts_total'', ''runs_open'', ''runs_total''}" for k
  proof -
    from that have "dict_get d4 k = dict_get d3 k"
      by (intro strategy_4_other [OF d4]) auto
    also from that have "\<dots> = dict_get [(''scraped_url'', PStr url), (''scrape_date'', PDate today)] k"
      by (intro strategies_1_to_3_other [OF d3]) auto
    also from that have "\<dots> = None" by (auto simp: dict_get_def)
    finally show ?thesis .
  qed
  have l5: "dict_get d5 ''lifts_open'' = None \<longleftrightarrow> dict_get d5 ''lifts_total'' = None"
    by (rule ratio_paired [OF d5]) (simp_all add: none)
  have r5: "dict_get d5 ''runs_open'' = None" "dict_get d5 ''runs_total'' = None"
    by (simp_all add: ratio_other [OF d5] none)
  have l6: "dict_get d6 ''lifts_open'' = None \<longleftrightarrow> dict_get d6 ''lifts_total'' = None"
    using l5 by (simp add: ratio_other [OF d6])
  have r6: "dict_get d6 ''runs_open'' = None \<longleftrightarrow> dict_get d6 ''runs_total'' = None"
    by (rule ratio_paired [OF d6]) (simp_all add: r5)
  show ?thesis
    using l6 r6 by (simp add: paired_def strategy_6_other [OF s6])
qed











lemma round_he_error: "\<bar>of_int (round_he y) - y\<bar> \<le> 1 / 2"
proof -
  define f where "f = \<lfloor>y\<rfloor>"
  have "of_int f \<le> y" "y < of_int f + 1" unfolding f_def by linarith+
  then show ?thesis
    unfolding round_he_def Let_def f_def [symmetric] by auto
qed

lemma round_he_of_int: "round_he (of_int m) = m"
  by (simp add: round_he_def)

lemma round_he_ge: "of_int m \<le> y \<Longrightarrow> m \<le> round_he y"
proof -
  assume "of_int m \<le> y"
  then have "m \<le> \<lfloor>y\<rfloor>" by (simp add: le_floor_iff)
  then show ?thesis unfolding round_he_def Let_def by auto
qed

lemma round_he_near: "\<bar>y - of_int g\<bar> < 1 / 2 \<Longrightarrow> round_he y = g"
proof -
  assume a: "\<bar>y - of_int g\<bar> < 1 / 2"
  have "\<bar>of_int (round_he y) - y\<bar> \<le> 1 / 2" by (rule round_he_error)
  with a have "\<bar>(of_int (round_he y) :: rat) - of_int g\<bar> < 1" by linarith
  then have "\<bar>round_he y - g\<bar> < 1"
    by (metis of_int_1 of_int_abs of_int_diff of_int_less_iff)
  then show ?thesis by linarith
qed

lemma ilog2_le:
  assumes "x \<noteq> 0"
  shows "2 powi ilog2 x \<le> \<bar>x\<bar>"
proof (cases "1 \<le> \<bar>x\<bar>")
  case True
  define m where "m = \<lfloor>\<bar>x\<bar>\<rfloor>"
  from True have m: "0 < m" unfolding m_def by linarith
  from bitlen_bounds [OF m] have b: "2 ^ nat (bitlen m - 1) \<le> m" by simp
  have n: "0 \<le> bitlen m - 1" using m by (simp add: bitlen_alt_def)
  have "(2::rat) powi (bitlen m - 1) = 2 ^ nat (bitlen m - 1)"
    using n by (simp add: power_int_def)
  also have "\<dots> \<le> of_int m" using b by simp
  also have "\<dots> \<le> \<bar>x\<bar>" unfolding m_def by linarith
  finally show ?thesis using True by (simp add: ilog2_def m_def)
next
  case False
  define c where "c = \<lceil>1 / \<bar>x\<bar>\<rceil>"
  define k where "k = bitlen (c - 1)"
  from False assms have x: "0 < \<bar>x\<bar>" "\<bar>x\<bar> < 1" by auto
  then have "1 < 1 / \<bar>x\<bar>" by (simp add: field_simps)
  then have c: "2 \<le> c" unfolding c_def by linarith
  then have c1: "0 < c - 1" by simp
  from bitlen_bounds [OF c1] have "c - 1 < 2 ^ nat k" by (simp add: k_def)
  then have "c \<le> 2 ^ nat k" by simp
  then have "(of_int c :: rat) \<le> 2 ^ nat k" by simp
  moreover have "1 / \<bar>x\<bar> \<le> of_int c" unfolding c_def by linarith
  ultimately have "1 / \<bar>x\<bar> \<le> 2 ^ nat k" by linarith
  with x have "1 / 2 ^ nat k \<le> \<bar>x\<bar>" by (simp add: field_simps)
  moreover have "0 \<le> k" by (simp add: k_def bitlen_nonneg)
  then have "(2::rat) powi (- k) = 1 / 2 ^ nat k"
    by (cases "k = 0") (simp_all add: power_int_def field_simps)
  ultimately show ?thesis using False by (simp add: ilog2_def c_def k_def)
qed

lemma ilog2_less:
  assumes "x \<noteq> 0"
  shows "\<bar>x\<bar> < 2 powi (ilog2 x + 1)"
proof (cases "1 \<le> \<bar>x\<bar>")
  case True
  define m where "m = \<lfloor>\<bar>x\<bar>\<rfloor>"
  from True have m: "0 < m" unfolding m_def by linarith
  from bitlen_bounds [OF m] have b: "m < 2 ^ nat (bitlen m)" by simp
  then have b': "m + 1 \<le> 2 ^ nat (bitlen m)" by simp
  have n: "0 \<le> bitlen m" by (simp add: bitlen_nonneg)
  have "\<bar>x\<bar> < of_int (m + 1)" unfolding m_def by linarith
  also have "\<dots> \<le> 2 ^ nat (bitlen m)" using b' by (simp flip: of_int_add)
  also have "\<dots> = (2::rat) powi (bitlen m)" using n by (simp add: power_int_def)
  finally show ?thesis using True by (simp add: ilog2_def m_def)
next
  case False
  define c where "c = \<lceil>1 / \<bar>x\<bar>\<rceil>"
  define k where "k = bitlen (c - 1)"
  from False assms have x: "0 < \<bar>x\<bar>" "\<bar>x\<bar> < 1" by auto
  then have "1 < 1 / \<bar>x\<bar>" by (simp add: field_simps)
  then have c: "2 \<le> c" unfolding c_def by linarith
  then have c1: "0 < c - 1" by simp
  from bitlen_bounds [OF c1] have lo: "2 ^ nat (k - 1) \<le> c - 1" by (simp add: k_def)
  have k1: "1 \<le> k" using c1 by (simp add: k_def bitlen_alt_def)
  define d where "d = c - 1"
  from lo have "2 ^ nat (k - 1) \<le> d" by (simp add: d_def)
  then have "(2 ^ nat (k - 1) :: rat) \<le> of_int d" by simp
  moreover have "(of_int d :: rat) = of_int c - 1" by (simp add: d_def)
  moreover have "of_int c - 1 < 1 / \<bar>x\<bar>" unfolding c_def by linarith
  ultimately have "2 ^ nat (k - 1) < 1 / \<bar>x\<bar>" by linarith
  with x have "\<bar>x\<bar> < 1 / 2 ^ nat (k - 1)" by (simp add: field_simps)
  moreover have "(2::rat) powi (- k + 1) = 1 / 2 ^ nat (k - 1)"
  proof (cases "k = 1")
    case True
    then show ?thesis by simp
  next
    case False
    with k1 have "- k + 1 < 0" "nat (- (- k + 1)) = nat (k - 1)" by auto
    then show ?thesis by (simp add: power_int_def field_simps)
  qed
  ultimately show ?thesis using False by (simp add: ilog2_def c_def k_def)
qed

lemma overflow_code [code]: "overflow y \<longleftrightarrow> y \<noteq> 0 \<and> 1024 \<le> ilog2 y"
proof (cases "y = 0")
  case True
  then show ?thesis by (simp add: overflow_def)
next
  case False
  have p: "(2::rat) powi 1024 = 2 ^ 1024" by (rule power_int_numeral)
  show ?thesis
  proof (cases "1024 \<le> ilog2 y")
    case True
    then have "(2::rat) powi 1024 \<le> 2 powi ilog2 y" by (rule power_int_increasing) simp
    also have "\<dots> \<le> \<bar>y\<bar>" using False by (rule ilog2_le)
    finally have "overflow y" unfolding p overflow_def .
    with True False show ?thesis by blast
  next
    case small: False
    then have "ilog2 y + 1 \<le> 1024" by simp
    then have "(2::rat) powi (ilog2 y + 1) \<le> 2 powi 1024" by (rule power_int_increasing) simp
    with ilog2_less [OF False] have "\<bar>y\<bar> < 2 powi 1024" by (rule less_le_trans)
    then have "\<not> overflow y" unfolding p overflow_def by (simp only: not_le)
    with small show ?thesis by blast
  qed
qed

lemma binary64_error: "\<bar>binary64 x - x\<bar> \<le> \<bar>x\<bar> / 2 ^ 53"
proof (cases "x = 0")
  case True
  then show ?thesis by (simp add: binary64_def)
next
  case False
  define u :: rat where "u = 2 powi (ilog2 x - 52)"
  have u: "0 < u" by (simp add: u_def)
  have "u = 2 powi ilog2 x / 2 ^ 52"
    by (simp add: u_def power_int_diff)
  also have "\<dots> \<le> \<bar>x\<bar> / 2 ^ 52"
    using ilog2_le [OF False] by (simp add: divide_right_mono)
  finally have ub: "u \<le> \<bar>x\<bar> / 2 ^ 52" .
  have "binary64 x - x = (of_int (round_he (x / u)) - x / u) * u"
    using False u by (simp add: binary64_def u_def [symmetric] Let_def field_simps)
  then have "\<bar>binary64 x - x\<bar> = \<bar>of_int (round_he (x / u)) - x / u\<bar> * u"
    using u by (simp add: abs_mult)
  also have "\<dots> \<le> (1 / 2) * u"
    using round_he_error [of "x / u"] u by (intro mult_right_mono) simp_all
  also have "\<dots> \<le> \<bar>x\<bar> / 2 ^ 53"
    using ub by simp
  finally show ?thesis .
qed

text \<open>Below \<open>2 ^ n\<close>, with \<open>n\<close> at most 53, the binary64 numbers are multiples of \<open>2 ^ (n - 53)\<close>.\<close>

lemma binary64_grid:
  assumes "x \<noteq> 0" and "\<bar>x\<bar> < 2 ^ n" and "n \<le> 53"
  obtains i where "53 - n \<le> i" and "binary64 x = of_int (round_he (x * 2 ^ i)) / 2 ^ i"
proof -
  have "(2::rat) powi ilog2 x < 2 powi int n"
    using ilog2_le [OF assms(1)] assms(2) by (simp add: power_int_def)
  then have e: "ilog2 x < int n"
    by (rule power_int_le_imp_less_exp [rotated]) simp_all
  define i where "i = nat (52 - ilog2 x)"
  from e assms(3) have i: "53 - n \<le> i" "int i = 52 - ilog2 x" by (auto simp: i_def)
  have "(2::rat) powi (ilog2 x - 52) = 2 powi (- int i)" using i by simp
  also have "\<dots> = 1 / 2 ^ i" by (simp add: power_int_minus field_simps)
  finally have "binary64 x = of_int (round_he (x * 2 ^ i)) / 2 ^ i"
    using assms(1) by (simp add: binary64_def Let_def)
  with i(1) show ?thesis by (rule that)
qed

lemma binary64_of_int:
  assumes "\<bar>n\<bar> < 2 ^ 53"
  shows "binary64 (of_int n) = of_int n"
proof (cases "n = 0")
  case True
  then show ?thesis by (simp add: binary64_def)
next
  case False
  from assms have "- (2 ^ 53) < n" "n < 2 ^ 53" by linarith+
  then have "- (2 ^ 53) < (of_int n :: rat)" "(of_int n :: rat) < 2 ^ 53"
    by simp_all
  then have lt: "\<bar>of_int n :: rat\<bar> < 2 ^ 53" by linarith
  from False have nz: "(of_int n :: rat) \<noteq> 0" by simp
  from binary64_grid [OF nz lt order_refl]
  obtain i where b: "binary64 (of_int n) = of_int (round_he (of_int n * 2 ^ i)) / 2 ^ i"
    by blast
  have r: "round_he (of_int n * 2 ^ i) = n * 2 ^ i"
    using round_he_of_int [of "n * 2 ^ i"] by simp
  show ?thesis unfolding b r by simp
qed

lemma floor_binary64:
  assumes "0 \<le> k" and "of_int k \<le> x" and "x < of_int k + 1 - 1 / 2 ^ (54 - n)"
    and "\<bar>x\<bar> < 2 ^ n" and "n \<le> 53"
  shows "\<lfloor>binary64 x\<rfloor> = k"
proof (cases "x = 0")
  case True
  with assms(1,2) have "k = 0" by simp
  with True show ?thesis by (simp add: binary64_def)
next
  case False
  from binary64_grid [OF False assms(4,5)] obtain i where
    i: "53 - n \<le> i" and b: "binary64 x = of_int (round_he (x * 2 ^ i)) / 2 ^ i" .
  define y where "y = x * 2 ^ i"
  have p: "(0::rat) < 2 ^ i" by simp
  have "of_int (k * 2 ^ i) \<le> y"
    using assms(2) by (simp add: y_def)
  then have lo: "k * 2 ^ i \<le> round_he y" by (rule round_he_ge)
  have "(2::rat) ^ (54 - n) \<le> 2 * 2 ^ i"
  proof -
    have "54 - n \<le> Suc i" using i by simp
    then have "(2::rat) ^ (54 - n) \<le> 2 ^ Suc i" by (intro power_increasing) simp_all
    then show ?thesis by simp
  qed
  then have h: "1 / 2 \<le> 2 ^ i / (2::rat) ^ (54 - n)"
    by (simp add: field_simps)
  have "y < (of_int k + 1) * 2 ^ i - 2 ^ i / 2 ^ (54 - n)"
  proof -
    have "x * 2 ^ i < (of_int k + 1 - 1 / 2 ^ (54 - n)) * 2 ^ i"
      using assms(3) p by (rule mult_strict_right_mono)
    then show ?thesis by (simp add: y_def field_simps)
  qed
  with h have "y + 1 / 2 < (of_int k + 1) * 2 ^ i" by linarith
  moreover have "of_int (round_he y) \<le> y + 1 / 2"
    using round_he_error [of y] by linarith
  ultimately have "(of_int (round_he y) :: rat) < of_int ((k + 1) * 2 ^ i)" by simp
  then have hi: "round_he y < (k + 1) * 2 ^ i" by (simp only: of_int_less_iff)
  have "of_int k \<le> binary64 x"
  proof -
    from lo have "(of_int (k * 2 ^ i) :: rat) \<le> of_int (round_he y)" by (simp only: of_int_le_iff)
    then have "of_int k * 2 ^ i \<le> (of_int (round_he y) :: rat)" by simp
    then show ?thesis using p by (simp add: b y_def [symmetric] field_simps)
  qed
  moreover have "binary64 x < of_int k + 1"
  proof -
    from hi have "(of_int (round_he y) :: rat) < of_int ((k + 1) * 2 ^ i)"
      by (simp only: of_int_less_iff)
    then have "(of_int (round_he y) :: rat) < (of_int k + 1) * 2 ^ i" by simp
    then show ?thesis using p by (simp add: b y_def [symmetric] field_simps)
  qed
  ultimately show ?thesis by linarith
qed

lemma literal_254: "binary64 (254 / 100) = 2859785763380265 / 2 ^ 50"
  by code_simp

lemma binary64_abs_le: "\<bar>binary64 x\<bar> \<le> \<bar>x\<bar> * 2"
proof -
  have "\<bar>binary64 x - x\<bar> \<le> \<bar>x\<bar> / 2 ^ 53" by (rule binary64_error)
  moreover have "\<bar>x\<bar> / 2 ^ 53 \<le> \<bar>x\<bar>" by (simp add: field_simps)
  ultimately show ?thesis by linarith
qed

lemma no_overflow: "\<bar>x\<bar> < 2 ^ 1000 \<Longrightarrow> \<not> overflow (binary64 x)"
proof -
  assume "\<bar>x\<bar> < 2 ^ 1000"
  with binary64_abs_le [of x] have "\<bar>binary64 x\<bar> < 2 ^ 1000 * 2" by linarith
  also have "\<dots> \<le> (2::rat) ^ 1024" by simp
  finally show ?thesis by (simp add: overflow_def)
qed

lemma remainder_even: "(n::int) * 254 mod 100 \<le> 98"
proof -
  have "2 * (n * 127) mod (2 * 50) = 2 * (n * 127 mod 50)"
    by (rule mult_mod_right [symmetric])
  then have "n * 254 mod 100 = 2 * (n * 127 mod 50)" by (simp add: mult.commute mult.left_commute)
  moreover have "n * 127 mod 50 < 50" by simp
  ultimately show ?thesis by linarith
qed

lemma float_of_int_exact:
  assumes "\<bar>n\<bar> < 2 ^ 53"
  shows "float_of_int n = Inr (of_int n)"
proof -
  from assms have "- (2 ^ 53) < n" "n < 2 ^ 53" by linarith+
  then have "- (2 ^ 53) < (of_int n :: rat)" "(of_int n :: rat) < 2 ^ 53"
    by simp_all
  moreover have "(2::rat) ^ 53 \<le> 2 ^ 1000" by (intro power_increasing) simp_all
  ultimately have "\<bar>of_int n :: rat\<bar> < 2 ^ 1000" by linarith
  then have "\<not> overflow (binary64 (of_int n))" by (rule no_overflow)
  then show ?thesis
    unfolding float_of_int_def Let_def binary64_of_int [OF assms] by simp
qed

lemma inches_product_bounds:
  fixes n k r :: int
  assumes "0 \<le> n" and "n < 2 ^ 46" and "n * 254 = 100 * k + r" and "0 \<le> r" and "r \<le> 98"
  defines "x \<equiv> of_int n * (2859785763380265 / 2 ^ 50 :: rat)"
  shows "of_int k \<le> x" and "x < of_int k + 1 - 1 / 2 ^ (54 - 48)" and "\<bar>x\<bar> < 2 ^ 48"
proof -
  have n0: "(0::rat) \<le> of_int n" using assms(1) by simp
  have n1: "(of_int n :: rat) < 70368744177664" using assms(2) by simp
  have "(of_int (n * 254) :: rat) = of_int (100 * k + r)" by (simp only: assms(3))
  then have e: "(of_int n :: rat) * 254 = 100 * of_int k + of_int r" by simp
  have r': "(0::rat) \<le> of_int r" "(of_int r :: rat) \<le> 98" using assms(4,5) by simp_all
  have xe: "x = of_int n * 2859785763380265 / 1125899906842624"
    by (simp add: x_def)
  show "of_int k \<le> x" unfolding xe using e r' n0 by linarith
  show "x < of_int k + 1 - 1 / 2 ^ (54 - 48)" unfolding xe using e r' n1 n0 by simp
  show "\<bar>x\<bar> < 2 ^ 48" unfolding xe using n0 n1 by simp
qed

lemma inches_to_cm_exact:
  assumes "0 \<le> n" and "n < 2 ^ 46"
  shows "inches_to_cm n = Inr (n * 254 div 100)"
proof -
  define k where "k = n * 254 div 100"
  define r where "r = n * 254 mod 100"
  define x :: rat where "x = of_int n * (2859785763380265 / 2 ^ 50)"
  have nk: "n * 254 = 100 * k + r" by (simp only: k_def r_def mult_div_mod_eq)
  have r0: "0 \<le> r" unfolding r_def by simp
  have r1: "r \<le> 98" unfolding r_def by (rule remainder_even)
  have k0: "0 \<le> k" unfolding k_def using assms(1) by (simp add: pos_imp_zdiv_nonneg_iff)
  from assms have a: "\<bar>n\<bar> < 2 ^ 53" by simp
  note b = inches_product_bounds [OF assms nk r0 r1, folded x_def]
  have fl: "\<lfloor>binary64 x\<rfloor> = k"
    by (rule floor_binary64 [OF k0 b]) simp
  have nn: "0 \<le> binary64 x"
  proof -
    from fl k0 have "0 \<le> \<lfloor>binary64 x\<rfloor>" by simp
    then show ?thesis by linarith
  qed
  have "(2::rat) ^ 48 \<le> 2 ^ 1000" by (intro power_increasing) simp_all
  with b(3) have "\<bar>x\<bar> < 2 ^ 1000" by linarith
  then have no: "\<not> overflow (binary64 x)" by (rule no_overflow)
  have "inches_to_cm n = (if overflow (binary64 x) then Inl OverflowError
                          else Inr (py_trunc (binary64 x)))"
    unfolding inches_to_cm_def float_of_int_exact [OF a] literal_254 x_def Let_def by simp
  also have "\<dots> = Inr \<lfloor>binary64 x\<rfloor>"
    using no nn by (simp add: py_trunc_def)
  finally show ?thesis unfolding fl k_def .
qed

lemma round_he_ninths:
  fixes m :: int
  shows "\<bar>of_int (round_he (of_int m / 9)) - (of_int m / 9 :: rat)\<bar> \<le> 4 / 9"
proof -
  define g where "g = round_he (of_int m / 9)"
  have "\<bar>of_int g - (of_int m / 9 :: rat)\<bar> \<le> 1 / 2"
    unfolding g_def by (rule round_he_error)
  then have "\<bar>(of_int (9 * g - m) :: rat)\<bar> \<le> 9 / 2"
    by (simp add: field_simps abs_le_iff)
  then have "\<bar>(of_int (9 * g - m) :: rat)\<bar> < of_int 5" by simp
  then have "\<bar>9 * g - m\<bar> < 5"
    by (simp only: of_int_abs [symmetric] of_int_less_iff)
  then have "\<bar>9 * g - m\<bar> \<le> 4" by simp
  then have "\<bar>(of_int (9 * g - m) :: rat)\<bar> \<le> of_int 4"
    by (simp only: of_int_abs [symmetric] of_int_le_iff)
  then show ?thesis
    unfolding g_def [symmetric] by (simp add: field_simps abs_le_iff)
qed

lemma fahrenheit_to_celsius_exact:
  assumes "\<bar>t\<bar> < 2 ^ 46"
  shows "fahrenheit_to_celsius t =
           Inr (binary64 (of_int (round_he (of_int ((t - 32) * 50) / 9)) / 10))"
proof -
  define q :: rat where "q = of_int ((t - 32) * 5) / of_int 9"
  define g where "g = round_he (of_int ((t - 32) * 50) / 9)"
  from assms have t: "- 70368744177664 < (of_int t :: rat)" "(of_int t :: rat) < 70368744177664"
    by (simp_all add: abs_less_iff)
  have qa: "\<bar>q\<bar> < 2 ^ 46" unfolding q_def using t by (simp add: abs_less_iff)
  have "(2::rat) ^ 46 \<le> 2 ^ 1000" by (intro power_increasing) simp_all
  with qa have "\<bar>q\<bar> < 2 ^ 1000" by linarith
  then have no: "\<not> overflow (binary64 q)" by (rule no_overflow)
  have d: "true_div ((t - 32) * 5) 9 = Inr (binary64 q)"
    using no by (simp add: true_div_def Let_def q_def)
  have q10: "q * 10 = of_int ((t - 32) * 50) / 9" by (simp add: q_def)
  have e1: "\<bar>binary64 q - q\<bar> \<le> \<bar>q\<bar> / 2 ^ 53" by (rule binary64_error)
  have e2: "\<bar>of_int g - q * 10\<bar> \<le> 4 / 9"
    unfolding q10 g_def by (rule round_he_ninths)
  have e1': "\<bar>binary64 q - q\<bar> * 9007199254740992 \<le> \<bar>q\<bar>" using e1 by simp
  have q9: "q * 9 = of_int t * 5 - 160" by (simp add: q_def field_simps)
  have qa': "\<bar>q\<bar> * 9 < 351843720888480"
  proof (cases "0 \<le> q")
    case True
    then have "\<bar>q\<bar> = q" by simp
    with t q9 show ?thesis by linarith
  next
    case False
    then have "\<bar>q\<bar> = - q" by simp
    with t q9 show ?thesis by linarith
  qed
  define A B Q where "A = \<bar>binary64 q - q\<bar>" and "B = \<bar>of_int g - q * 10\<bar>" and "Q = \<bar>q\<bar>"
  have "binary64 q * 10 - of_int g = (binary64 q - q) * 10 - (of_int g - q * 10)"
    by (simp add: algebra_simps)
  also have "\<bar>\<dots>\<bar> \<le> \<bar>(binary64 q - q) * 10\<bar> + \<bar>of_int g - q * 10\<bar>"
    by (rule abs_triangle_ineq4)
  also have "\<dots> = A * 10 + B" by (simp only: A_def B_def abs_mult abs_numeral)
  finally have tri: "\<bar>binary64 q * 10 - of_int g\<bar> \<le> A * 10 + B" .
  have b1: "A * 9007199254740992 \<le> Q" using e1' unfolding A_def Q_def .
  have b2: "B \<le> 4 / 9" using e2 unfolding B_def .
  have b3: "Q * 9 < 351843720888480" using qa' unfolding Q_def .
  have "A * 10 + B < 1 / 2" using b1 b2 b3 by linarith
  with tri have "\<bar>binary64 q * 10 - of_int g\<bar> < 1 / 2" by (rule le_less_trans)
  then have r: "round_he (binary64 q * 10) = g" by (rule round_he_near)
  show ?thesis
    unfolding fahrenheit_to_celsius_def d by (simp only: sum.case py_round1_def r g_def)
qed


lemma binary64_ge:
  assumes "0 < x"
  shows "2 powi ilog2 x \<le> binary64 x"
proof -
  define u :: rat where "u = 2 powi (ilog2 x - 52)"
  have u: "0 < u" by (simp add: u_def)
  from assms have nz: "x \<noteq> 0" by simp
  have e: "(2::rat) powi ilog2 x = 2 ^ 52 * u"
    by (simp add: u_def power_int_diff)
  from ilog2_le [OF nz] assms have "2 ^ 52 * u \<le> x" by (simp add: e)
  then have "(of_int (2 ^ 52) :: rat) \<le> x / u"
    using u by (simp add: field_simps)
  then have "2 ^ 52 \<le> round_he (x / u)" by (rule round_he_ge)
  then have "(of_int (2 ^ 52) :: rat) \<le> of_int (round_he (x / u))"
    by (simp only: of_int_le_iff)
  then have "2 ^ 52 * u \<le> of_int (round_he (x / u)) * u"
    using u by (simp add: mult_right_mono)
  then show ?thesis
    using nz by (simp add: e binary64_def Let_def u_def [symmetric])
qed

lemma float_of_int_overflow:
  assumes "2 ^ 1024 \<le> n"
  shows "float_of_int n = Inl OverflowError"
proof -
  define x :: rat where "x = of_int n"
  have p: "(2::rat) powi 1024 = 2 ^ 1024" by (rule power_int_numeral)
  from assms have "(of_int (2 ^ 1024) :: rat) \<le> of_int n" by (simp only: of_int_le_iff)
  then have x: "2 powi 1024 \<le> x" unfolding p x_def by simp
  have "(0::rat) < 2 powi 1024" by simp
  then have pos: "0 < x" using x by (rule less_le_trans)
  then have nz: "x \<noteq> 0" by simp
  have "1024 \<le> ilog2 x"
  proof (rule ccontr)
    assume "\<not> 1024 \<le> ilog2 x"
    then have "ilog2 x + 1 \<le> 1024" by simp
    then have "(2::rat) powi (ilog2 x + 1) \<le> 2 powi 1024" by (rule power_int_increasing) simp
    with ilog2_less [OF nz] have "\<bar>x\<bar> < 2 powi 1024" by (rule less_le_trans)
    with x pos show False by simp
  qed
  then have "(2::rat) powi 1024 \<le> 2 powi ilog2 x" by (rule power_int_increasing) simp
  also have "\<dots> \<le> binary64 x" using pos by (rule binary64_ge)
  also have "\<dots> \<le> \<bar>binary64 x\<bar>" by simp
  finally have "overflow (binary64 x)" unfolding p overflow_def .
  then show ?thesis by (simp add: float_of_int_def Let_def x_def)
qed

lemma inches_to_cm_overflow: "2 ^ 1024 \<le> n \<Longrightarrow> inches_to_cm n = Inl OverflowError"
  by (simp add: inches_to_cm_def float_of_int_overflow)

lemma spec_fahrenheit_to_celsius_of_int:
  "spec_fahrenheit_to_celsius (of_int t) = of_int (round_he (of_int ((t - 32) * 50) / 9)) / 10"
proof -
  have "(of_int t - 32) * 5 / 9 * 10 = (of_int ((t - 32) * 50) / 9 :: rat)" by simp
  then show ?thesis
    unfolding spec_fahrenheit_to_celsius_def by (simp only:)
qed

lemma fahrenheit_to_celsius_spec:
  "\<bar>t\<bar> < 2 ^ 46 \<Longrightarrow>
   fahrenheit_to_celsius t = Inr (binary64 (spec_fahrenheit_to_celsius (of_int t)))"
  unfolding spec_fahrenheit_to_celsius_of_int by (rule fahrenheit_to_celsius_exact)

lemma spec_inches_to_cm_of_int: "spec_inches_to_cm (of_int n) = n * 254 div 100"
proof -
  have "(of_int n :: rat) * (254 / 100) = of_int (n * 254) / of_int 100" by simp
  then show ?thesis
    unfolding spec_inches_to_cm_def by (simp only: floor_divide_of_int_eq)
qed


lemma unit_to_cm_cm: "unit_to_cm ''cm'' n = Inr n"
  by (simp add: unit_to_cm_def quote_def)

lemma distinct_container_depth:
  "container_depth kw field text d = Inr d' \<Longrightarrow> distinct (map fst d) \<Longrightarrow> distinct (map fst d')"
  by (auto simp: container_depth_def distinct_dict_set split: option.splits sum.splits if_splits)

lemma distinct_container_step:
  "distinct (map fst d) \<Longrightarrow> container_step d c = Inr d' \<Longrightarrow> distinct (map fst d')"
  by (auto simp: container_step_def Let_def split: sum.splits
      dest!: distinct_container_depth)

lemma distinct_strategies_1_to_3:
  assumes "strategies_1_to_3 soup url today = Inr d"
  shows "distinct (map fst d)"
proof -
  define d0 where "d0 = [(''scraped_url'', PStr url), (''scrape_date'', PDate today)]"
  from assms obtain m where
    l: "for_loop container_step (dict_update (dict_update d0 (find_json_data soup)) m)
              (snow_containers soup) = Inr d"
    by (auto simp: strategies_1_to_3_def Let_def d0_def split: sum.splits)
  have "distinct (map fst d0)" by (simp add: d0_def)
  then have "distinct (map fst (dict_update (dict_update d0 (find_json_data soup)) m))"
    by (intro distinct_dict_update)
  with l show ?thesis
    by (rule for_loop_invariant) (rule distinct_container_step)
qed

lemma distinct_store: "distinct (map fst d) \<Longrightarrow> distinct (map fst (store key n d))"
  by (simp add: store_def distinct_dict_set)

lemma distinct_try_patterns:
  "try_patterns key is_inches t ps d = Inr r \<Longrightarrow> distinct (map fst d) \<Longrightarrow> distinct (map fst r)"
proof (induction ps arbitrary: d)
  case Nil
  then show ?case by simp
next
  case (Cons p ps)
  from Cons.prems(1) obtain found where
    c: "r = (case found of None \<Rightarrow> d | Some value \<Rightarrow> store key value d)
         \<or> try_patterns key is_inches t ps
              (case found of None \<Rightarrow> d | Some value \<Rightarrow> store key value d) = Inr r"
    by (rule try_patterns_step)
  define d' where "d' = (case found of None \<Rightarrow> d | Some value \<Rightarrow> store key value d)"
  have s: "distinct (map fst d')"
    unfolding d'_def using Cons.prems(2) by (cases found) (simp_all add: distinct_store)
  from c have "r = d' \<or> try_patterns key is_inches t ps d' = Inr r"
    unfolding d'_def .
  with Cons.IH [of d'] s show ?case by auto
qed

lemma distinct_scan_patterns:
  "scan_patterns table is_inches t d = Inr r \<Longrightarrow> distinct (map fst d) \<Longrightarrow> distinct (map fst r)"
proof (induction table is_inches t d rule: scan_patterns.induct)
  case (1 is_inches t d)
  then show ?case by simp
next
  case (2 key pattern_list rest is_inches t d)
  show ?case
  proof (cases "already_found d key")
    case True
    with 2 show ?thesis by simp
  next
    case False
    with 2(3) obtain d' where
      a: "try_patterns key is_inches t pattern_list d = Inr d'" and
      b: "scan_patterns rest is_inches t d' = Inr r"
      by (auto split: sum.splits)
    from 2(2) [OF False a b] distinct_try_patterns [OF a 2(4)] show ?thesis by simp
  qed
qed

lemma distinct_ratio:
  "ratio p open_field total_field t d = Inr r \<Longrightarrow> distinct (map fst d) \<Longrightarrow> distinct (map fst r)"
  by (auto simp: ratio_def distinct_dict_set split: option.splits sum.splits)

lemma distinct_strategy_6:
  "strategy_6 t d = Inr r \<Longrightarrow> distinct (map fst d) \<Longrightarrow> distinct (map fst r)"
  by (auto simp: strategy_6_def distinct_dict_set split: option.splits sum.splits)

lemma distinct_parse:
  assumes "parse_snow_report_generic soup url today = Inr r"
  shows "distinct (map fst r)"
proof -
  from assms obtain d3 d4 d6 where d3: "strategies_1_to_3 soup url today = Inr d3"
    and d4: "strategy_4 (get_text soup) d3 = Inr d4"
    and s5: "strategy_5 (get_text soup) d4 = Inr d6"
    and s6: "strategy_6 (get_text soup) d6 = Inr r"
    by (rule parse_cases)
  from s5 obtain d5 where
    d5: "ratio lifts_re ''lifts_open'' ''lifts_total'' (get_text soup) d4 = Inr d5" and
    d6: "ratio runs_re ''runs_open'' ''runs_total'' (get_text soup) d5 = Inr d6"
    by (rule strategy_5_cases)
  have "distinct (map fst d3)" using d3 by (rule distinct_strategies_1_to_3)
  with d4 have "distinct (map fst d4)"
    unfolding strategy_4_def Let_def by (rule distinct_scan_patterns)
  with d5 have "distinct (map fst d5)" by (rule distinct_ratio)
  with d6 have "distinct (map fst d6)" by (rule distinct_ratio)
  with s6 show ?thesis by (rule distinct_strategy_6)
qed

lemma dict_get_merge:
  assumes "distinct (map fst g)"
  shows "dict_get (dict_update d (unresolved_items d g)) k =
         (if get_truthy d k then dict_get d k
          else case dict_get g k of Some v \<Rightarrow> Some v | None \<Rightarrow> dict_get d k)"
proof -
  define Q where "Q = (\<lambda>k. case dict_get d k of None \<Rightarrow> True | Some x \<Rightarrow> \<not> truthy x)"
  have u: "unresolved_items d g = filter (\<lambda>(k, v). Q k) g"
    by (simp add: unresolved_items_def Q_def)
  have "distinct (map fst (filter (\<lambda>(k, v). Q k) g))"
    using assms by (rule distinct_map_filter)
  then have "map_of (rev (filter (\<lambda>(k, v). Q k) g)) k = map_of (filter (\<lambda>(k, v). Q k) g) k"
    by (simp add: map_of_rev_distinct)
  also have "\<dots> = (if Q k then map_of g k else None)"
    by (rule map_of_filter_key)
  finally have m: "map_of (rev (unresolved_items d g)) k = (if Q k then dict_get g k else None)"
    by (simp add: u dict_get_def)
  have q: "Q k \<longleftrightarrow> \<not> get_truthy d k"
    by (simp add: Q_def get_truthy_def split: option.splits)
  show ?thesis
    unfolding dict_get_dict_update m q
    by (simp split: option.splits)
qed

lemma vail_fallback_truthy:
  "get_truthy d ''snow_depth_base_cm'' \<Longrightarrow> vail_fallback soup url today d = Inr d"
  by (simp add: vail_fallback_def)

lemma vail_fallback_generic:
  "\<not> get_truthy d ''snow_depth_base_cm'' \<Longrightarrow> parse_snow_report_generic soup url today = Inr g \<Longrightarrow>
   vail_fallback soup url today d = Inr (dict_update d (unresolved_items d g))"
  by (simp add: vail_fallback_def)

lemma vail_fallback_raises:
  "\<not> get_truthy d ''snow_depth_base_cm'' \<Longrightarrow> parse_snow_report_generic soup url today = Inl e \<Longrightarrow>
   vail_fallback soup url today d = Inl e"
  by (simp add: vail_fallback_def)

lemma vail_fallback_cases:
  assumes "vail_fallback soup url today d = Inr r"
  obtains "get_truthy d ''snow_depth_base_cm''" and "r = d"
  | g where "\<not> get_truthy d ''snow_depth_base_cm''"
      and "parse_snow_report_generic soup url today = Inr g"
      and "r = dict_update d (unresolved_items d g)"
  using assms by (auto simp: vail_fallback_def split: if_splits sum.splits)

lemma depth_element_step_other:
  "depth_element_step d e = Inr d' \<Longrightarrow> k \<noteq> ''snow_depth_base_cm'' \<Longrightarrow>
   k \<noteq> ''snow_depth_summit_cm'' \<Longrightarrow> dict_get d' k = dict_get d k"
  by (cases e)
     (auto simp: depth_element_step_def Let_def dict_get_dict_set
        split: option.splits sum.splits if_splits)

lemma vail_pass_other:
  assumes "k \<noteq> ''snow_depth_base_cm''" "k \<noteq> ''snow_depth_summit_cm''"
  shows "dict_get (vail_pass soup url today) k =
         dict_get [(''scraped_url'', PStr url), (''scrape_date'', PDate today)] k"
  unfolding vail_pass_def
  by (rule loop_until_error_invariant) (simp_all add: depth_element_step_other [OF _ assms])

lemma parse_other:
  assumes "parse_snow_report_generic soup url today = Inr r"
    and "k \<in> {''scraped_url'', ''scrape_date''}"
  shows "dict_get r k = dict_get [(''scraped_url'', PStr url), (''scrape_date'', PDate today)] k"
proof -
  from assms(1) obtain d3 d4 d5 where d3: "strategies_1_to_3 soup url today = Inr d3"
    and d4: "strategy_4 (get_text soup) d3 = Inr d4"
    and d5: "strategy_5 (get_text soup) d4 = Inr d5"
    and d6: "strategy_6 (get_text soup) d5 = Inr r"
    by (rule parse_cases)
  from assms(2) have a: "k \<noteq> ''temperature_base_c''"
    and b: "k \<notin> {''lifts_open'', ''lifts_total'', ''runs_open'', ''runs_total''}"
    and c: "k \<notin> {''snow_depth_base_cm'', ''snow_depth_summit_cm'', ''new_snow_24h_cm'',
          ''new_snow_48h_cm'', ''new_snow_7d_cm''}"
    and d: "k \<noteq> ''snow_depth_base_cm''" "k \<noteq> ''snow_depth_summit_cm''" "k \<noteq> ''new_snow_24h_cm''"
    by auto
  show ?thesis
    by (simp only: strategy_6_other [OF d6 a] strategy_5_other [OF d5 b] strategy_4_other [OF d4 c]
        strategies_1_to_3_other [OF d3 d])
qed

lemma try_urls_Some:
  "try_urls get_page today fetched urls = (Inr (Some d), fetched') \<Longrightarrow>
   \<exists>soup url. parse_snow_report_generic soup url today = Inr d"
proof (induction urls arbitrary: fetched)
  case Nil
  then show ?case by simp
next
  case (Cons u us)
  show ?case
  proof (cases "get_page fetched u")
    case None
    with Cons show ?thesis by simp
  next
    case (Some soup)
    show ?thesis
    proof (cases "parse_snow_report_generic soup u today")
      case (Inl e)
      with Some Cons.prems show ?thesis by simp
    next
      case (Inr data)
      show ?thesis
      proof (cases "meaningful data")
        case True
        with Some Inr Cons.prems have "d = data" by simp
        with Inr show ?thesis by blast
      next
        case False
        with Some Inr Cons show ?thesis by simp
      qed
    qed
  qed
qed

lemma try_urls_all_fail:
  "all_fail get_page today fetched urls \<Longrightarrow>
   try_urls get_page today fetched urls = (Inr None, fetched @ urls)"
  by (induction urls arbitrary: fetched) (auto simp: no_result_def split: option.splits sum.splits)

lemma try_urls_first_meaningful:
  "all_fail get_page today fetched pre \<Longrightarrow>
   get_page (fetched @ pre) url = Some soup \<Longrightarrow>
   parse_snow_report_generic soup url today = Inr data \<Longrightarrow>
   meaningful data \<Longrightarrow>
   try_urls get_page today fetched (pre @ url # post) = (Inr (Some data), fetched @ pre @ [url])"
  by (induction pre arbitrary: fetched) (auto simp: no_result_def split: option.splits sum.splits)

lemma try_urls_first_raises:
  "all_fail get_page today fetched pre \<Longrightarrow>
   get_page (fetched @ pre) url = Some soup \<Longrightarrow>
   parse_snow_report_generic soup url today = Inl e \<Longrightarrow>
   try_urls get_page today fetched (pre @ url # post) = (Inl e, fetched @ pre @ [url])"
  by (induction pre arbitrary: fetched) (auto simp: no_result_def split: option.splits sum.splits)

lemma scrape_resort_cases:
  assumes "fst (scrape_resort get_page today r) = Inr d"
  shows "(\<exists>soup url. parse_snow_report_generic soup url today = Inr d)
   \<or> d = [(''scraped_url'', url_value (first_url r)), (''scrape_date'', PDate today)]"
proof (cases "try_urls get_page today [] (urls_to_try r)")
  case (Pair res fetched)
  show ?thesis
  proof (cases res)
    case (Inl e)
    with Pair assms show ?thesis by (simp add: scrape_resort_def)
  next
    case (Inr found)
    show ?thesis
    proof (cases found)
      case None
      with Pair Inr assms show ?thesis by (simp add: scrape_resort_def)
    next
      case (Some x)
      with Pair Inr assms have "x = d" by (simp add: scrape_resort_def)
      with Pair Inr Some try_urls_Some [of get_page today "[]" "urls_to_try r" d fetched]
      show ?thesis by simp
    qed
  qed
qed

lemma paired_minimal: "paired [(''scraped_url'', u), (''scrape_date'', d)]"
  by (simp add: paired_def dict_get_def)

lemma paired_empty: "paired []"
  by (simp add: paired_def dict_get_def)

lemma vail_fallback_paired:
  assumes "vail_fallback soup url today (vail_pass soup url today) = Inr r"
  shows "paired r"
proof -
  define d where "d = vail_pass soup url today"
  have none: "dict_get d k = None"
    if "k \<in> {''lifts_open'', ''lifts_total'', ''runs_open'', ''runs_total''}" for k
  proof -
    from that have "dict_get d k = dict_get [(''scraped_url'', PStr url), (''scrape_date'', PDate today)] k"
      unfolding d_def by (intro vail_pass_other) auto
    also from that have "\<dots> = None" by (auto simp: dict_get_def)
    finally show ?thesis .
  qed
  from assms [folded d_def] show ?thesis
  proof (cases rule: vail_fallback_cases)
    case 1
    then show ?thesis by (simp add: paired_def none)
  next
    case (2 g)
    have r: "dict_get r k = dict_get g k"
      if "k \<in> {''lifts_open'', ''lifts_total'', ''runs_open'', ''runs_total''}" for k
      using none [OF that]
      by (simp add: 2(3) dict_get_merge [OF distinct_parse [OF 2(2)]] get_truthy_def
          split: option.splits)
    have "paired g" using 2(2) by (rule parse_paired)
    then show ?thesis
      unfolding paired_def by (simp add: r)
  qed
qed


section \<open>The claims\<close>

subsection \<open>C1: sanity bounds of the generic extractor\<close>

text \<open>
  C1, as stated: every numeric value in the record returned by the generic extractor lies
  within its field's sanity bounds. The page
  \<^verbatim>\<open><div class="snow-depth" data-snow="500">Base: 4000cm</div>\<close> refutes it: the
  structured-data strategy stores a snowfall of 500 cm and the class heuristic a base depth
  of 4000 cm, neither strategy checks a bound, and no later pass removes them.
\<close>

theorem unchecked_values_reach_the_record:
  "parse_snow_report_generic oversized_page ''https://alta.com/snow'' day =
     Inr [(''scraped_url'', PStr ''https://alta.com/snow''), (''scrape_date'', PDate (Date 2024 1 15)),
          (''new_snow_24h_cm'', PInt 500), (''snow_depth_base_cm'', PInt 4000)]
   \<and> \<not> within_bounds
         [(''scraped_url'', PStr ''https://alta.com/snow''), (''scrape_date'', PDate (Date 2024 1 15)),
          (''new_snow_24h_cm'', PInt 500), (''snow_depth_base_cm'', PInt 4000)]"
proof
  show "parse_snow_report_generic oversized_page ''https://alta.com/snow'' day =
     Inr [(''scraped_url'', PStr ''https://alta.com/snow''), (''scrape_date'', PDate (Date 2024 1 15)),
          (''new_snow_24h_cm'', PInt 500), (''snow_depth_base_cm'', PInt 4000)]"
    by code_simp
  show "\<not> within_bounds
         [(''scraped_url'', PStr ''https://alta.com/snow''), (''scrape_date'', PDate (Date 2024 1 15)),
          (''new_snow_24h_cm'', PInt 500), (''snow_depth_base_cm'', PInt 4000)]"
    by (simp add: within_bounds_def depth_fields_def snowfall_fields_def)
qed

text \<open>
  C1, amended: every value that the full-text regex strategy stores lies within its field's
  sanity bounds. In every record returned by the generic extractor each depth field and
  each snowfall field either still holds what strategies 1 to 3 left there, unchecked, or
  holds an integer within the bounds of the field (a depth in [5, 1000] cm, a snowfall of
  at most 300 cm).
\<close>

theorem regex_values_within_bounds:
  assumes "field \<in> depth_fields \<union> snowfall_fields"
    and "parse_snow_report_generic soup url today = Inr data"
  shows "\<exists>data3. strategies_1_to_3 soup url today = Inr data3
           \<and> (dict_get data field = dict_get data3 field \<or> bounded field (dict_get data field))"
proof -
  from assms(2) obtain d3 d4 d5 where d3: "strategies_1_to_3 soup url today = Inr d3"
    and d4: "strategy_4 (get_text soup) d3 = Inr d4"
    and d5: "strategy_5 (get_text soup) d4 = Inr d5"
    and d6: "strategy_6 (get_text soup) d5 = Inr data"
    by (rule parse_cases)
  have "dict_get data field = dict_get d4 field"
    using d5 d6 assms(1) by (rule later_strategies_keep)
  moreover have "dict_get d4 field = dict_get d3 field \<or> bounded field (dict_get d4 field)"
    using d4 unfolding strategy_4_def Let_def by (rule scan_patterns_kept_or_bounded)
  ultimately have "dict_get data field = dict_get d3 field \<or> bounded field (dict_get data field)"
    by simp
  with d3 show ?thesis by blast
qed

text \<open>
  C1, witness: on the text \<^verbatim>\<open>Base: 50cm\<close> the regex strategy stores a base depth of
  50 cm, which is within the bounds.
\<close>

theorem regex_values_within_bounds_witness:
  "''snow_depth_base_cm'' \<in> depth_fields \<union> snowfall_fields
   \<and> parse_snow_report_generic (text_page ''Base: 50cm'') ''https://alta.com/snow'' day =
       Inr [(''scraped_url'', PStr ''https://alta.com/snow''), (''scrape_date'', PDate (Date 2024 1 15)),
            (''snow_depth_base_cm'', PInt 50)]
   \<and> (\<exists>data3. strategies_1_to_3 (text_page ''Base: 50cm'') ''https://alta.com/snow'' day = Inr data3
         \<and> (dict_get [(''scraped_url'', PStr ''https://alta.com/snow''),
                       (''scrape_date'', PDate (Date 2024 1 15)),
                       (''snow_depth_base_cm'', PInt 50)] ''snow_depth_base_cm''
               = dict_get data3 ''snow_depth_base_cm''
             \<or> bounded ''snow_depth_base_cm''
                 (dict_get [(''scraped_url'', PStr ''https://alta.com/snow''),
                            (''scrape_date'', PDate (Date 2024 1 15)),
                            (''snow_depth_base_cm'', PInt 50)] ''snow_depth_base_cm'')))"
proof -
  have h: "''snow_depth_base_cm'' \<in> depth_fields \<union> snowfall_fields"
    by (simp add: depth_fields_def)
  have e: "parse_snow_report_generic (text_page ''Base: 50cm'') ''https://alta.com/snow'' day =
       Inr [(''scraped_url'', PStr ''https://alta.com/snow''), (''scrape_date'', PDate (Date 2024 1 15)),
            (''snow_depth_base_cm'', PInt 50)]"
    by code_simp
  from regex_values_within_bounds [OF h e] h e show ?thesis by blast
qed

subsection \<open>C2: precedence between the strategies\<close>

text \<open>
  C2: a field given a value by an earlier strategy is not overwritten by a later one; when
  the meta-tag strategy and the regex strategy resolve the base depth to different values,
  the record holds the meta-tag value. The code evaluated on a page whose meta tag says
  \<^verbatim>\<open>base 40cm\<close> and whose text says \<^verbatim>\<open>Base: 50cm\<close>: the meta-tag strategy yields 40,
  the record after strategy 3 holds 40, the regex strategy alone yields 50, and the record
  returned holds 50. The test of line 208 looks up \<^verbatim>\<open>basedepth\<close>, a key the record
  never has, so the regex strategy is never skipped.
\<close>

theorem regex_overwrites_meta_tag_value:
  "extract_from_meta_tags meta_page = Inr [(''snow_depth_base_cm'', PInt 40)]
   \<and> strategies_1_to_3 meta_page ''https://alta.com/snow'' day =
       Inr [(''scraped_url'', PStr ''https://alta.com/snow''), (''scrape_date'', PDate (Date 2024 1 15)),
            (''snow_depth_base_cm'', PInt 40)]
   \<and> strategy_4 (get_text meta_page) [] = Inr [(''snow_depth_base_cm'', PInt 50)]
   \<and> parse_snow_report_generic meta_page ''https://alta.com/snow'' day =
       Inr [(''scraped_url'', PStr ''https://alta.com/snow''), (''scrape_date'', PDate (Date 2024 1 15)),
            (''snow_depth_base_cm'', PInt 50)]"
proof (intro conjI)
  show "extract_from_meta_tags meta_page = Inr [(''snow_depth_base_cm'', PInt 40)]"
    by code_simp
  show "strategies_1_to_3 meta_page ''https://alta.com/snow'' day =
       Inr [(''scraped_url'', PStr ''https://alta.com/snow''), (''scrape_date'', PDate (Date 2024 1 15)),
            (''snow_depth_base_cm'', PInt 40)]"
    by code_simp
  show "strategy_4 (get_text meta_page) [] = Inr [(''snow_depth_base_cm'', PInt 50)]"
    by code_simp
  show "parse_snow_report_generic meta_page ''https://alta.com/snow'' day =
       Inr [(''scraped_url'', PStr ''https://alta.com/snow''), (''scrape_date'', PDate (Date 2024 1 15)),
            (''snow_depth_base_cm'', PInt 50)]"
    by code_simp
qed

subsection \<open>C3: the scenario of the specification\<close>

text \<open>
  C3: the text \<^verbatim>\<open>Base Depth: 42in, Summit: 61in, 24hr Snowfall: 8in, 5/10 lifts open\<close>
  is to give a base depth of 106, a summit depth of 154, a 24-hour snowfall of 20 and 5 of
  10 lifts. The code evaluated on it gives a 24-hour snowfall of 106: the fifth pattern of
  \<^verbatim>\<open>24h_snow\<close> stores 20, the test of line 245 looks up \<^verbatim>\<open>24hsnow\<close> and never stops
  the loop, and the sixth pattern then matches \<^verbatim>\<open>42in, Summit: 61in, 24\<close> and stores
  42 inches.
\<close>

theorem scenario_record:
  "parse_snow_report_generic scenario_page ''https://alta.com/snow'' day =
     Inr [(''scraped_url'', PStr ''https://alta.com/snow''), (''scrape_date'', PDate (Date 2024 1 15)),
          (''snow_depth_base_cm'', PInt 106), (''snow_depth_summit_cm'', PInt 154),
          (''new_snow_24h_cm'', PInt 106), (''lifts_open'', PInt 5), (''lifts_total'', PInt 10)]"
  by code_simp

subsection \<open>C4: the first meaningful candidate URL\<close>

text \<open>
  C4, as stated: the record of the first candidate URL in which one of the five fields is
  present is returned, and no later URL is fetched. Refuted by a snow report that says
  \<^verbatim>\<open>0/10 lifts\<close>: \<^verbatim>\<open>lifts_open\<close> is present with the value 0, which
  \<^verbatim>\<open>data.get(field)\<close> takes for false, so the home page is fetched and its record is the
  one returned.
\<close>

theorem zero_count_is_not_meaningful:
  "parse_snow_report_generic (text_page ''0/10 lifts'') ''https://alta.com/snow'' day =
     Inr [(''scraped_url'', PStr ''https://alta.com/snow''), (''scrape_date'', PDate (Date 2024 1 15)),
          (''lifts_open'', PInt 0), (''lifts_total'', PInt 10)]
   \<and> scrape_resort closed_web day alta =
       (Inr [(''scraped_url'', PStr ''https://alta.com''), (''scrape_date'', PDate (Date 2024 1 15)),
             (''lifts_open'', PInt 5), (''lifts_total'', PInt 10)],
        [''https://alta.com/snow'', ''https://alta.com''])"
proof (intro conjI)
  show "parse_snow_report_generic (text_page ''0/10 lifts'') ''https://alta.com/snow'' day =
     Inr [(''scraped_url'', PStr ''https://alta.com/snow''), (''scrape_date'', PDate (Date 2024 1 15)),
          (''lifts_open'', PInt 0), (''lifts_total'', PInt 10)]"
    by code_simp
  show "scrape_resort closed_web day alta =
       (Inr [(''scraped_url'', PStr ''https://alta.com''), (''scrape_date'', PDate (Date 2024 1 15)),
             (''lifts_open'', PInt 5), (''lifts_total'', PInt 10)],
        [''https://alta.com/snow'', ''https://alta.com''])"
    by code_simp
qed

text \<open>
  C4, amended: the record returned is that of the first candidate URL that is fetched and
  whose record holds a truthy (non-zero) value in one of \<^verbatim>\<open>snow_depth_base_cm\<close>,
  \<^verbatim>\<open>snow_depth_summit_cm\<close>, \<^verbatim>\<open>new_snow_24h_cm\<close>, \<^verbatim>\<open>lifts_open\<close>, \<^verbatim>\<open>runs_open\<close>;
  the URLs requested are the candidates up to that one, and none after it.
\<close>

theorem first_meaningful_url_wins:
  assumes "urls_to_try resort_data = pre @ url # post"
    and "all_fail get_page today [] pre"
    and "get_page pre url = Some soup"
    and "parse_snow_report_generic soup url today = Inr data"
    and "meaningful data"
  shows "scrape_resort get_page today resort_data = (Inr data, pre @ [url])"
  using try_urls_first_meaningful [of get_page today "[]" pre url soup data post] assms
  by (simp add: scrape_resort_def)

text \<open>
  C4, witness: when the snow report says \<^verbatim>\<open>5/10 lifts\<close> its record is returned and the
  home page is not requested.
\<close>

theorem first_meaningful_url_wins_witness:
  "urls_to_try alta = [] @ ''https://alta.com/snow'' # [''https://alta.com'']
   \<and> all_fail (serving (text_page ''5/10 lifts'')) day [] []
   \<and> serving (text_page ''5/10 lifts'') [] ''https://alta.com/snow'' = Some (text_page ''5/10 lifts'')
   \<and> parse_snow_report_generic (text_page ''5/10 lifts'') ''https://alta.com/snow'' day =
       Inr [(''scraped_url'', PStr ''https://alta.com/snow''), (''scrape_date'', PDate (Date 2024 1 15)),
            (''lifts_open'', PInt 5), (''lifts_total'', PInt 10)]
   \<and> meaningful
        [(''scraped_url'', PStr ''https://alta.com/snow''), (''scrape_date'', PDate (Date 2024 1 15)),
         (''lifts_open'', PInt 5), (''lifts_total'', PInt 10)]
   \<and> scrape_resort (serving (text_page ''5/10 lifts'')) day alta =
       (Inr [(''scraped_url'', PStr ''https://alta.com/snow''), (''scrape_date'', PDate (Date 2024 1 15)),
             (''lifts_open'', PInt 5), (''lifts_total'', PInt 10)],
        [] @ [''https://alta.com/snow''])"
proof -
  have h1: "urls_to_try alta = [] @ ''https://alta.com/snow'' # [''https://alta.com'']"
    by code_simp
  have h2: "all_fail (serving (text_page ''5/10 lifts'')) day [] []"
    by simp
  have h3: "serving (text_page ''5/10 lifts'') [] ''https://alta.com/snow''
            = Some (text_page ''5/10 lifts'')"
    by (simp add: serving_def)
  have h4: "parse_snow_report_generic (text_page ''5/10 lifts'') ''https://alta.com/snow'' day =
       Inr [(''scraped_url'', PStr ''https://alta.com/snow''), (''scrape_date'', PDate (Date 2024 1 15)),
            (''lifts_open'', PInt 5), (''lifts_total'', PInt 10)]"
    by code_simp
  have h5: "meaningful
        [(''scraped_url'', PStr ''https://alta.com/snow''), (''scrape_date'', PDate (Date 2024 1 15)),
         (''lifts_open'', PInt 5), (''lifts_total'', PInt 10)]"
    by code_simp
  from first_meaningful_url_wins [OF h1 h2 h3 h4 h5] h1 h2 h3 h4 h5 show ?thesis by blast
qed

subsection \<open>C5: the record after every candidate URL failed\<close>

text \<open>
  C5, as stated: the minimal record carries the last-tried URL. Refuted by a resort with
  two URLs while every request fails: both URLs are requested, the home page last, and the
  record carries the URL of the snow report, which was tried first.
\<close>

theorem exhausted_record_names_first_url:
  "scrape_resort offline day alta =
     (Inr [(''scraped_url'', PStr ''https://alta.com/snow''), (''scrape_date'', PDate (Date 2024 1 15))],
      [''https://alta.com/snow'', ''https://alta.com''])
   \<and> dict_get [(''scraped_url'', PStr ''https://alta.com/snow''),
                 (''scrape_date'', PDate (Date 2024 1 15))] ''scraped_url''
       \<noteq> Some (PStr (last (snd (scrape_resort offline day alta))))"
proof -
  have e: "scrape_resort offline day alta =
     (Inr [(''scraped_url'', PStr ''https://alta.com/snow''), (''scrape_date'', PDate (Date 2024 1 15))],
      [''https://alta.com/snow'', ''https://alta.com''])"
    by code_simp
  show ?thesis
    unfolding e by (simp add: dict_get_def)
qed

text \<open>
  C5, amended: when every candidate URL fails or gives a record that is not meaningful,
  the record returned has exactly two entries: \<^verbatim>\<open>scraped_url\<close>, the value of
  \<^verbatim>\<open>snow_report_url or website_url\<close>, which is the first candidate when there is one, and
  \<^verbatim>\<open>scrape_date\<close>; no measurement field is present. Every candidate has been requested.
\<close>

theorem exhausted_record:
  assumes "all_fail get_page today [] (urls_to_try resort_data)"
  shows "scrape_resort get_page today resort_data =
           (Inr [(''scraped_url'', url_value (first_url resort_data)), (''scrape_date'', PDate today)],
            urls_to_try resort_data)
         \<and> (urls_to_try resort_data \<noteq> [] \<longrightarrow>
              first_url resort_data = Some (hd (urls_to_try resort_data)))"
proof
  show "scrape_resort get_page today resort_data =
           (Inr [(''scraped_url'', url_value (first_url resort_data)), (''scrape_date'', PDate today)],
            urls_to_try resort_data)"
    using try_urls_all_fail [OF assms] by (simp add: scrape_resort_def)
  show "urls_to_try resort_data \<noteq> [] \<longrightarrow>
          first_url resort_data = Some (hd (urls_to_try resort_data))"
    by (cases "snow_report_url resort_data"; cases "website_url resort_data")
       (simp_all add: urls_to_try_def first_url_def url_present_def)
qed

text \<open>C5, witness: the resort with two URLs while every request fails.\<close>

theorem exhausted_record_witness:
  "all_fail offline day [] (urls_to_try alta)
   \<and> scrape_resort offline day alta =
       (Inr [(''scraped_url'', url_value (first_url alta)), (''scrape_date'', PDate day)],
        urls_to_try alta)
   \<and> urls_to_try alta = [''https://alta.com/snow'', ''https://alta.com'']
   \<and> first_url alta = Some (hd (urls_to_try alta))"
proof -
  have h: "all_fail offline day [] (urls_to_try alta)"
    by code_simp
  have u: "urls_to_try alta = [''https://alta.com/snow'', ''https://alta.com'']"
    by code_simp
  then have n: "urls_to_try alta \<noteq> []"
    by simp
  from exhausted_record [OF h] h u n show ?thesis by blast
qed

subsection \<open>C6: the fallback of the Vail scraper\<close>

text \<open>
  C6, as stated: every field left unresolved by the specialized pass is filled from the
  generic extractor. Refuted by a page on which the specialized pass finds the base depth
  and the generic extractor would find the summit depth: the generic extractor is not
  called, and the record returned has no summit depth.
\<close>

theorem resolved_base_skips_generic:
  "scrape (get_scraper_for_resort (name vail)) (serving base_page) day vail =
     (Inr [(''scraped_url'', PStr ''https://vail.com/snow''), (''scrape_date'', PDate (Date 2024 1 15)),
           (''snow_depth_base_cm'', PInt 106)],
      [''https://vail.com/snow''])
   \<and> parse_snow_report_generic base_page ''https://vail.com/snow'' day =
       Inr [(''scraped_url'', PStr ''https://vail.com/snow''), (''scrape_date'', PDate (Date 2024 1 15)),
            (''snow_depth_summit_cm'', PInt 154)]"
proof (intro conjI)
  show "scrape (get_scraper_for_resort (name vail)) (serving base_page) day vail =
     (Inr [(''scraped_url'', PStr ''https://vail.com/snow''), (''scrape_date'', PDate (Date 2024 1 15)),
           (''snow_depth_base_cm'', PInt 106)],
      [''https://vail.com/snow''])"
    by code_simp
  show "parse_snow_report_generic base_page ''https://vail.com/snow'' day =
       Inr [(''scraped_url'', PStr ''https://vail.com/snow''), (''scrape_date'', PDate (Date 2024 1 15)),
            (''snow_depth_summit_cm'', PInt 154)]"
    by code_simp
qed

text \<open>
  C6, amended: for a page that was fetched, the generic extractor is called only when the
  specialized pass leaves \<^verbatim>\<open>snow_depth_base_cm\<close> absent or zero. Then a field whose
  specialized value is truthy keeps it, and any other field takes the generic value when
  the generic record has one; an exception of the generic extractor is passed on. When
  the specialized base depth is truthy the record of the specialized pass is returned
  unchanged. The one URL is the only one requested.
\<close>

theorem vail_generic_fallback:
  assumes "name resort_data \<in> set vail_resorts"
    and "url_present (first_url resort_data)"
    and "get_page [] (the (first_url resort_data)) = Some soup"
  shows "let url = the (first_url resort_data);
             data = vail_pass soup url today;
             result = scrape (get_scraper_for_resort (name resort_data)) get_page today resort_data
         in (get_truthy data ''snow_depth_base_cm'' \<longrightarrow> result = (Inr data, [url]))
            \<and> (\<forall>e. \<not> get_truthy data ''snow_depth_base_cm''
                     \<and> parse_snow_report_generic soup url today = Inl e \<longrightarrow>
                   result = (Inl e, [url]))
            \<and> (\<forall>generic_data.
                  \<not> get_truthy data ''snow_depth_base_cm''
                    \<and> parse_snow_report_generic soup url today = Inr generic_data \<longrightarrow>
                  (\<exists>merged. result = (Inr merged, [url])
                     \<and> (\<forall>k. dict_get merged k =
                              (if get_truthy data k then dict_get data k
                               else case dict_get generic_data k of
                                      Some v \<Rightarrow> Some v
                                    | None \<Rightarrow> dict_get data k))))"
proof -
  define url where "url = the (first_url resort_data)"
  define data where "data = vail_pass soup url today"
  from assms(1) have "get_scraper_for_resort (name resort_data) = VailResortsScraper"
    by (simp add: get_scraper_for_resort_def)
  with assms(2,3) have r: "scrape (get_scraper_for_resort (name resort_data)) get_page today
      resort_data = (vail_fallback soup url today data, [url])"
    by (simp add: vail_scrape_resort_def Let_def url_def data_def)
  have a: "get_truthy data ''snow_depth_base_cm'' \<longrightarrow>
      (vail_fallback soup url today data, [url]) = (Inr data, [url])"
    by (simp add: vail_fallback_truthy)
  have b: "\<forall>e. \<not> get_truthy data ''snow_depth_base_cm''
                     \<and> parse_snow_report_generic soup url today = Inl e \<longrightarrow>
      (vail_fallback soup url today data, [url]) = (Inl e, [url])"
    by (simp add: vail_fallback_raises)
  have c: "\<forall>generic_data.
                  \<not> get_truthy data ''snow_depth_base_cm''
                    \<and> parse_snow_report_generic soup url today = Inr generic_data \<longrightarrow>
                  (\<exists>merged. (vail_fallback soup url today data, [url]) = (Inr merged, [url])
                     \<and> (\<forall>k. dict_get merged k =
                              (if get_truthy data k then dict_get data k
                               else case dict_get generic_data k of
                                      Some v \<Rightarrow> Some v
                                    | None \<Rightarrow> dict_get data k)))"
  proof (intro allI impI)
    fix generic_data
    assume h: "\<not> get_truthy data ''snow_depth_base_cm''
                    \<and> parse_snow_report_generic soup url today = Inr generic_data"
    then have "vail_fallback soup url today data
                 = Inr (dict_update data (unresolved_items data generic_data))"
      by (simp add: vail_fallback_generic)
    moreover from h have "parse_snow_report_generic soup url today = Inr generic_data"
      by simp
    then have "distinct (map fst generic_data)"
      by (rule distinct_parse)
    ultimately show "\<exists>merged. (vail_fallback soup url today data, [url]) = (Inr merged, [url])
                     \<and> (\<forall>k. dict_get merged k =
                              (if get_truthy data k then dict_get data k
                               else case dict_get generic_data k of
                                      Some v \<Rightarrow> Some v
                                    | None \<Rightarrow> dict_get data k))"
      by (simp add: dict_get_merge)
  qed
  from a b c show ?thesis
    unfolding Let_def url_def [symmetric] data_def [symmetric] r by blast
qed

text \<open>
  C6, witness: the specialized pass finds the summit depth only; the base depth comes from
  the generic extractor and the summit depth stays that of the specialized pass.
\<close>

theorem vail_generic_fallback_witness:
  "name vail \<in> set vail_resorts
   \<and> url_present (first_url vail)
   \<and> serving summit_page [] (the (first_url vail)) = Some summit_page
   \<and> the (first_url vail) = ''https://vail.com/snow''
   \<and> vail_pass summit_page ''https://vail.com/snow'' day =
       [(''scraped_url'', PStr ''https://vail.com/snow''), (''scrape_date'', PDate (Date 2024 1 15)),
        (''snow_depth_summit_cm'', PInt 154)]
   \<and> get_truthy (vail_pass summit_page ''https://vail.com/snow'' day) ''snow_depth_base_cm'' = False
   \<and> parse_snow_report_generic summit_page ''https://vail.com/snow'' day =
       Inr [(''scraped_url'', PStr ''https://vail.com/snow''), (''scrape_date'', PDate (Date 2024 1 15)),
            (''snow_depth_base_cm'', PInt 106)]
   \<and> (\<exists>merged. scrape (get_scraper_for_resort (name vail)) (serving summit_page) day vail
                   = (Inr merged, [''https://vail.com/snow''])
         \<and> (\<forall>k. dict_get merged k =
                  (if get_truthy (vail_pass summit_page ''https://vail.com/snow'' day) k
                   then dict_get (vail_pass summit_page ''https://vail.com/snow'' day) k
                   else case dict_get
                               [(''scraped_url'', PStr ''https://vail.com/snow''),
                                (''scrape_date'', PDate (Date 2024 1 15)),
                                (''snow_depth_base_cm'', PInt 106)] k of
                          Some v \<Rightarrow> Some v
                        | None \<Rightarrow> dict_get (vail_pass summit_page ''https://vail.com/snow'' day) k)))
   \<and> scrape (get_scraper_for_resort (name vail)) (serving summit_page) day vail =
       (Inr [(''scraped_url'', PStr ''https://vail.com/snow''), (''scrape_date'', PDate (Date 2024 1 15)),
             (''snow_depth_summit_cm'', PInt 154), (''snow_depth_base_cm'', PInt 106)],
        [''https://vail.com/snow''])"
proof -
  have h0: "name vail \<in> set vail_resorts"
    by code_simp
  have h1: "url_present (first_url vail)"
    by code_simp
  have h2: "serving summit_page [] (the (first_url vail)) = Some summit_page"
    by (simp add: serving_def)
  have u: "the (first_url vail) = ''https://vail.com/snow''"
    by code_simp
  have p: "vail_pass summit_page ''https://vail.com/snow'' day =
       [(''scraped_url'', PStr ''https://vail.com/snow''), (''scrape_date'', PDate (Date 2024 1 15)),
        (''snow_depth_summit_cm'', PInt 154)]"
    by code_simp
  have t: "get_truthy (vail_pass summit_page ''https://vail.com/snow'' day) ''snow_depth_base_cm'' = False"
    by code_simp
  have g: "parse_snow_report_generic summit_page ''https://vail.com/snow'' day =
       Inr [(''scraped_url'', PStr ''https://vail.com/snow''), (''scrape_date'', PDate (Date 2024 1 15)),
            (''snow_depth_base_cm'', PInt 106)]"
    by code_simp
  have e: "scrape (get_scraper_for_resort (name vail)) (serving summit_page) day vail =
       (Inr [(''scraped_url'', PStr ''https://vail.com/snow''), (''scrape_date'', PDate (Date 2024 1 15)),
             (''snow_depth_summit_cm'', PInt 154), (''snow_depth_base_cm'', PInt 106)],
        [''https://vail.com/snow''])"
    by code_simp
  note f = vail_generic_fallback [where get_page = "serving summit_page" and resort_data = vail
         and soup = summit_page and today = day, OF h0 h1 h2, unfolded Let_def u]
  from f t g have "\<exists>merged. scrape (get_scraper_for_resort (name vail)) (serving summit_page) day vail
                   = (Inr merged, [''https://vail.com/snow''])
         \<and> (\<forall>k. dict_get merged k =
                  (if get_truthy (vail_pass summit_page ''https://vail.com/snow'' day) k
                   then dict_get (vail_pass summit_page ''https://vail.com/snow'' day) k
                   else case dict_get
                               [(''scraped_url'', PStr ''https://vail.com/snow''),
                                (''scrape_date'', PDate (Date 2024 1 15)),
                                (''snow_depth_base_cm'', PInt 106)] k of
                          Some v \<Rightarrow> Some v
                        | None \<Rightarrow> dict_get (vail_pass summit_page ''https://vail.com/snow'' day) k))"
    by blast
  with h0 h1 h2 u p t g e show ?thesis by blast
qed

subsection \<open>C7: the lift and run ratios\<close>

text \<open>
  C7, as stated: an open count never exceeds its total. Refuted by the text
  \<^verbatim>\<open>15/10 lifts\<close>: the two numbers are stored as they stand.
\<close>

theorem open_count_above_total:
  "parse_snow_report_generic (text_page ''15/10 lifts'') ''https://alta.com/snow'' day =
     Inr [(''scraped_url'', PStr ''https://alta.com/snow''), (''scrape_date'', PDate (Date 2024 1 15)),
          (''lifts_open'', PInt 15), (''lifts_total'', PInt 10)]
   \<and> \<not> counts_ordered
         [(''scraped_url'', PStr ''https://alta.com/snow''), (''scrape_date'', PDate (Date 2024 1 15)),
          (''lifts_open'', PInt 15), (''lifts_total'', PInt 10)]"
proof
  show "parse_snow_report_generic (text_page ''15/10 lifts'') ''https://alta.com/snow'' day =
     Inr [(''scraped_url'', PStr ''https://alta.com/snow''), (''scrape_date'', PDate (Date 2024 1 15)),
          (''lifts_open'', PInt 15), (''lifts_total'', PInt 10)]"
    by code_simp
  show "\<not> counts_ordered
         [(''scraped_url'', PStr ''https://alta.com/snow''), (''scrape_date'', PDate (Date 2024 1 15)),
          (''lifts_open'', PInt 15), (''lifts_total'', PInt 10)]"
    by (simp add: counts_ordered_def dict_get_def)
qed

text \<open>
  C7, amended: in every record returned by the generic extractor and by either scraper,
  \<^verbatim>\<open>lifts_open\<close> and \<^verbatim>\<open>lifts_total\<close> are both present or both absent, and so are
  \<^verbatim>\<open>runs_open\<close> and \<^verbatim>\<open>runs_total\<close>. The code compares no open count with its total.
\<close>

theorem ratio_fields_paired:
  "(parse_snow_report_generic soup url today = Inr data \<longrightarrow> paired data)
   \<and> (fst (scrape_resort get_page today resort_data) = Inr data \<longrightarrow> paired data)
   \<and> (fst (vail_scrape_resort get_page today resort_data) = Inr data \<longrightarrow> paired data)"
proof (intro conjI impI)
  assume "parse_snow_report_generic soup url today = Inr data"
  then show "paired data"
    by (rule parse_paired)
next
  assume "fst (scrape_resort get_page today resort_data) = Inr data"
  from scrape_resort_cases [OF this] show "paired data"
    by (auto simp: parse_paired paired_minimal)
next
  assume a: "fst (vail_scrape_resort get_page today resort_data) = Inr data"
  show "paired data"
  proof (cases "url_present (first_url resort_data)")
    case False
    with a have "data = []" by (simp add: vail_scrape_resort_def)
    then show ?thesis by (simp add: paired_empty)
  next
    case True
    show ?thesis
    proof (cases "get_page [] (the (first_url resort_data))")
      case None
      with True a have "data = []" by (simp add: vail_scrape_resort_def)
      then show ?thesis by (simp add: paired_empty)
    next
      case (Some soup)
      with True a have
        "vail_fallback soup (the (first_url resort_data)) today
           (vail_pass soup (the (first_url resort_data)) today) = Inr data"
        by (simp add: vail_scrape_resort_def Let_def)
      then show ?thesis by (rule vail_fallback_paired)
    qed
  qed
qed

text \<open>
  C7, witness: the record of the text \<^verbatim>\<open>15/10 lifts\<close> has both halves of the lift
  ratio; the records returned while every request fails have neither.
\<close>

theorem ratio_fields_paired_witness:
  "parse_snow_report_generic (text_page ''15/10 lifts'') ''https://alta.com/snow'' day =
     Inr [(''scraped_url'', PStr ''https://alta.com/snow''), (''scrape_date'', PDate (Date 2024 1 15)),
          (''lifts_open'', PInt 15), (''lifts_total'', PInt 10)]
   \<and> paired [(''scraped_url'', PStr ''https://alta.com/snow''), (''scrape_date'', PDate (Date 2024 1 15)),
              (''lifts_open'', PInt 15), (''lifts_total'', PInt 10)]
   \<and> fst (scrape_resort offline day alta) =
       Inr [(''scraped_url'', PStr ''https://alta.com/snow''), (''scrape_date'', PDate (Date 2024 1 15))]
   \<and> paired [(''scraped_url'', PStr ''https://alta.com/snow''), (''scrape_date'', PDate (Date 2024 1 15))]
   \<and> fst (vail_scrape_resort offline day vail) = Inr []
   \<and> paired []"
proof -
  have a: "parse_snow_report_generic (text_page ''15/10 lifts'') ''https://alta.com/snow'' day =
     Inr [(''scraped_url'', PStr ''https://alta.com/snow''), (''scrape_date'', PDate (Date 2024 1 15)),
          (''lifts_open'', PInt 15), (''lifts_total'', PInt 10)]"
    by code_simp
  have b: "fst (scrape_resort offline day alta) =
       Inr [(''scraped_url'', PStr ''https://alta.com/snow''), (''scrape_date'', PDate (Date 2024 1 15))]"
    by code_simp
  have c: "fst (vail_scrape_resort offline day vail) = Inr []"
    by code_simp
  from ratio_fields_paired [of "text_page ''15/10 lifts''" "''https://alta.com/snow''" day
         "[(''scraped_url'', PStr ''https://alta.com/snow''), (''scrape_date'', PDate (Date 2024 1 15)),
           (''lifts_open'', PInt 15), (''lifts_total'', PInt 10)]" offline alta]
       ratio_fields_paired [of "text_page ''15/10 lifts''" "''https://alta.com/snow''" day
         "[(''scraped_url'', PStr ''https://alta.com/snow''), (''scrape_date'', PDate (Date 2024 1 15))]"
         offline alta]
       ratio_fields_paired [of "text_page ''15/10 lifts''" "''https://alta.com/snow''" day
         "[]" offline vail]
       a b c
  show ?thesis by blast
qed

subsection \<open>C8: the unit conversions\<close>

text \<open>
  C8, as stated: for every non-negative number the inch conversion returns the integer
  floor of \<open>x \<times> 2.54\<close> and the Fahrenheit conversion returns \<open>(x - 32) \<times> 5/9\<close> rounded to
  one decimal place. Refuted by the integer 99999999999999999, which the scrapers pass on
  from a text such as \<^verbatim>\<open>99999999999999999in\<close>: \<^verbatim>\<open>int(inches * 2.54)\<close> is
  254000000000000000 where the floor is 253999999999999997, and the temperature is
  55555555555555536.0 where the exact value rounds to 55555555555555537.2. From
  \<open>2 ^ 1024\<close> on, the inch conversion raises \<^verbatim>\<open>OverflowError\<close> and returns nothing.
\<close>

theorem float_conversions_depart_from_exact:
  "inches_to_cm 99999999999999999 = Inr 254000000000000000
   \<and> spec_inches_to_cm 99999999999999999 = 253999999999999997
   \<and> fahrenheit_to_celsius 99999999999999999 = Inr 55555555555555536
   \<and> spec_fahrenheit_to_celsius 99999999999999999 = 555555555555555372 / 10
   \<and> inches_to_cm (2 ^ 1024) = Inl OverflowError"
proof (intro conjI)
  show "inches_to_cm 99999999999999999 = Inr 254000000000000000"
    by code_simp
  show "spec_inches_to_cm 99999999999999999 = 253999999999999997"
    by code_simp
  show "fahrenheit_to_celsius 99999999999999999 = Inr 55555555555555536"
    by code_simp
  show "spec_fahrenheit_to_celsius 99999999999999999 = 555555555555555372 / 10"
    by code_simp
  show "inches_to_cm (2 ^ 1024) = Inl OverflowError"
    by (rule inches_to_cm_overflow) (rule order_refl)
qed

text \<open>
  C8, amended: for every integer \<open>x\<close> with \<open>0 \<le> x < 2 ^ 46\<close> the inch conversion returns the
  integer floor of \<open>x \<times> 2.54\<close>, also where the unit of a value is read from the text, and a
  value whose unit is \<^verbatim>\<open>cm\<close> is stored as it stands; the Fahrenheit conversion returns
  the binary64 number nearest to \<open>(x - 32) \<times> 5/9\<close> rounded to one decimal place, which
  differs from that decimal by at most its \<open>2 ^ 53\<close>-th part.
\<close>

theorem conversions_exact_below_2_46:
  assumes "0 \<le> x" and "x < 2 ^ 46"
  shows "inches_to_cm x = Inr (spec_inches_to_cm (of_int x))
         \<and> unit_to_cm ''in'' x = Inr (spec_inches_to_cm (of_int x))
         \<and> unit_to_cm ''cm'' x = Inr x
         \<and> fahrenheit_to_celsius x = Inr (binary64 (spec_fahrenheit_to_celsius (of_int x)))
         \<and> \<bar>binary64 (spec_fahrenheit_to_celsius (of_int x)) - spec_fahrenheit_to_celsius (of_int x)\<bar>
             \<le> \<bar>spec_fahrenheit_to_celsius (of_int x)\<bar> / 2 ^ 53"
proof (intro conjI)
  show i: "inches_to_cm x = Inr (spec_inches_to_cm (of_int x))"
    unfolding spec_inches_to_cm_of_int using assms by (rule inches_to_cm_exact)
  show "unit_to_cm ''in'' x = Inr (spec_inches_to_cm (of_int x))"
    using i by (simp add: unit_to_cm_def)
  show "unit_to_cm ''cm'' x = Inr x"
    by (rule unit_to_cm_cm)
  from assms have "\<bar>x\<bar> < 2 ^ 46" by simp
  then show "fahrenheit_to_celsius x = Inr (binary64 (spec_fahrenheit_to_celsius (of_int x)))"
    by (rule fahrenheit_to_celsius_spec)
  show "\<bar>binary64 (spec_fahrenheit_to_celsius (of_int x)) - spec_fahrenheit_to_celsius (of_int x)\<bar>
             \<le> \<bar>spec_fahrenheit_to_celsius (of_int x)\<bar> / 2 ^ 53"
    by (rule binary64_error)
qed

text \<open>
  C8, witness: 86 inches are 218 cm, 86 cm stay 86 cm, and 86 degrees Fahrenheit are
  30.0 degrees Celsius.
\<close>

theorem conversions_exact_below_2_46_witness:
  "(0::int) \<le> 86 \<and> (86::int) < 2 ^ 46
   \<and> inches_to_cm 86 = Inr (spec_inches_to_cm (of_int 86))
   \<and> unit_to_cm ''in'' 86 = Inr (spec_inches_to_cm (of_int 86))
   \<and> unit_to_cm ''cm'' 86 = Inr 86
   \<and> fahrenheit_to_celsius 86 = Inr (binary64 (spec_fahrenheit_to_celsius (of_int 86)))
   \<and> spec_inches_to_cm (of_int 86) = 218
   \<and> spec_fahrenheit_to_celsius (of_int 86) = 30
   \<and> binary64 (spec_fahrenheit_to_celsius (of_int 86)) = 30"
proof -
  have a: "(0::int) \<le> 86" by simp
  have b: "(86::int) < 2 ^ 46" by simp
  have c: "spec_inches_to_cm (of_int 86) = 218" by code_simp
  have d: "spec_fahrenheit_to_celsius (of_int 86) = 30" by code_simp
  have e: "binary64 (spec_fahrenheit_to_celsius (of_int 86)) = 30" by code_simp
  from conversions_exact_below_2_46 [OF a b] a b c d e show ?thesis by blast
qed

subsection \<open>C9: a failed fetch in the Vail scraper\<close>

text \<open>
  C9: when a resort of the Vail family has no URL, or the one URL chosen (\<^verbatim>\<open>snow_report_url or
  website_url\<close>) cannot be fetched, the Vail scraper returns the empty record, with neither
  URL nor date, and has requested nothing, or that one URL only. Every record that the
  generic scraper returns holds the capture date.
\<close>

theorem vail_fetch_failure:
  assumes "name resort_data \<in> set vail_resorts"
  shows "(\<not> url_present (first_url resort_data) \<longrightarrow>
            scrape (get_scraper_for_resort (name resort_data)) get_page today resort_data
              = (Inr [], []))
         \<and> (url_present (first_url resort_data)
              \<and> get_page [] (the (first_url resort_data)) = None \<longrightarrow>
            scrape (get_scraper_for_resort (name resort_data)) get_page today resort_data
              = (Inr [], [the (first_url resort_data)]))
         \<and> (fst (scrape_resort get_page today resort_data) = Inr data \<longrightarrow>
              dict_get data ''scrape_date'' = Some (PDate today))"
proof (intro conjI)
  from assms have v: "get_scraper_for_resort (name resort_data) = VailResortsScraper"
    by (simp add: get_scraper_for_resort_def)
  show "\<not> url_present (first_url resort_data) \<longrightarrow>
      scrape (get_scraper_for_resort (name resort_data)) get_page today resort_data = (Inr [], [])"
    by (simp add: v vail_scrape_resort_def)
  show "url_present (first_url resort_data) \<and> get_page [] (the (first_url resort_data)) = None \<longrightarrow>
      scrape (get_scraper_for_resort (name resort_data)) get_page today resort_data
        = (Inr [], [the (first_url resort_data)])"
    by (simp add: v vail_scrape_resort_def)
  show "fst (scrape_resort get_page today resort_data) = Inr data \<longrightarrow>
      dict_get data ''scrape_date'' = Some (PDate today)"
  proof
    assume "fst (scrape_resort get_page today resort_data) = Inr data"
    from scrape_resort_cases [OF this] show "dict_get data ''scrape_date'' = Some (PDate today)"
      by (auto simp: parse_other) (simp_all add: dict_get_def)
  qed
qed

text \<open>
  C9, witness: a resort of the family without a usable URL, and one with two URLs while
  every request fails; there the generic scraper requests both URLs and returns URL and
  date.
\<close>

theorem vail_fetch_failure_witness:
  "name keystone \<in> set vail_resorts
   \<and> \<not> url_present (first_url keystone)
   \<and> scrape (get_scraper_for_resort (name keystone)) offline day keystone = (Inr [], [])
   \<and> name vail \<in> set vail_resorts
   \<and> url_present (first_url vail)
   \<and> offline [] (the (first_url vail)) = None
   \<and> scrape (get_scraper_for_resort (name vail)) offline day vail = (Inr [], [the (first_url vail)])
   \<and> the (first_url vail) = ''https://vail.com/snow''
   \<and> scrape_resort offline day vail =
       (Inr [(''scraped_url'', PStr ''https://vail.com/snow''), (''scrape_date'', PDate (Date 2024 1 15))],
        [''https://vail.com/snow'', ''https://vail.com''])
   \<and> dict_get [(''scraped_url'', PStr ''https://vail.com/snow''),
                 (''scrape_date'', PDate (Date 2024 1 15))] ''scrape_date'' = Some (PDate day)"
proof -
  have k: "name keystone \<in> set vail_resorts"
    by code_simp
  have a: "\<not> url_present (first_url keystone)"
    by code_simp
  have n: "name vail \<in> set vail_resorts"
    by code_simp
  have b: "url_present (first_url vail)"
    by code_simp
  have c: "offline [] (the (first_url vail)) = None"
    by (simp add: offline_def)
  have d: "the (first_url vail) = ''https://vail.com/snow''"
    by code_simp
  have e: "scrape_resort offline day vail =
       (Inr [(''scraped_url'', PStr ''https://vail.com/snow''), (''scrape_date'', PDate (Date 2024 1 15))],
        [''https://vail.com/snow'', ''https://vail.com''])"
    by code_simp
  then have f: "fst (scrape_resort offline day vail) =
       Inr [(''scraped_url'', PStr ''https://vail.com/snow''), (''scrape_date'', PDate (Date 2024 1 15))]"
    by simp
  from vail_fetch_failure [OF k, of offline day]
    vail_fetch_failure [OF n, of offline day
      "[(''scraped_url'', PStr ''https://vail.com/snow''), (''scrape_date'', PDate (Date 2024 1 15))]"]
    k a n b c d e f
  show ?thesis by blast
qed

subsection \<open>C10: the unit of a temperature\<close>



end
